theory Spec2Isabelle
  imports Main
begin


section \<open>JSON values as the bridge sees them\<close>

text \<open>
  Both ends exchange JSON text frames. A parsed frame is a value of \<open>json\<close>; the
  JavaScript value \<open>undefined\<close> (an absent property) is \<open>None\<close> of \<open>json option\<close>.
  An object is the list of its own properties in insertion order (keys are distinct in a
  JavaScript object; \<open>map_of\<close> reads one). Numbers are restricted to integers: the code
  studied here only tests them for truthiness.
\<close>

datatype json =
    JNull
  | JBool bool
  | JNum int
  | JStr string
  | JArr "json list"
  | JObj "(string \<times> json) list"

text \<open>JavaScript truthiness, as used by \<open>if (data.requestId)\<close> and friends.\<close>

fun truthy :: "json \<Rightarrow> bool" where
  "truthy JNull = False"
| "truthy (JBool b) = b"
| "truthy (JNum n) = (n \<noteq> 0)"
| "truthy (JStr s) = (s \<noteq> [])"
| "truthy (JArr xs) = True"
| "truthy (JObj fs) = True"

fun js_truthy :: "json option \<Rightarrow> bool" where
  "js_truthy None = False"
| "js_truthy (Some v) = truthy v"

text \<open>
  Property read \<open>v.k\<close> on a value other than \<open>null\<close> (on \<open>null\<close> JavaScript throws
  a TypeError, which every caller below handles before reading). Only the property names
  of the wire protocol are read, none of which exists on a string, number, boolean or array.
\<close>

fun get_prop :: "json \<Rightarrow> string \<Rightarrow> json option" where
  "get_prop (JObj fs) k = map_of fs k"
| "get_prop v k = None"

text \<open>
  The string a value is, if it is one (\<open>typeof v === "string"\<close>, or \<open>v === "..."\<close>),
  and the properties of a plain object.
\<close>

fun as_string :: "json option \<Rightarrow> string option" where
  "as_string (Some (JStr x)) = Some x"
| "as_string v = None"

fun as_object :: "json option \<Rightarrow> (string \<times> json) list option" where
  "as_object (Some (JObj fs)) = Some fs"
| "as_object v = None"

text \<open>\<open>JSON.stringify\<close> drops a property whose value is \<open>undefined\<close>.\<close>

definition opt_field :: "string \<Rightarrow> json option \<Rightarrow> (string \<times> json) list" where
  "opt_field k v = (case v of None \<Rightarrow> [] | Some x \<Rightarrow> [(k, x)])"

section \<open>The bridge (server.ts): connection registry and correlation table\<close>

text \<open>
  A server-side socket is identified by \<open>ws.data.id\<close>, the UUID drawn when the
  connection is upgraded; \<open>ThunderbirdClient.ws\<close> and \<open>ThunderbirdClient.id\<close> are
  therefore one field here.
\<close>

record client =
  client_id :: string
  addonId :: "json option"
  connectedAt :: string

datatype js_error = NoClientConnected | RequestTimeout | Thrown string

text \<open>
  A JavaScript promise settles once: \<open>resolve\<close> and \<open>reject\<close> on a settled promise
  do nothing. \<open>Resolved None\<close> is a promise resolved with \<open>undefined\<close>.
\<close>

datatype promise_state = Pending | Resolved "json option" | Rejected js_error

definition settle ::
  "nat \<Rightarrow> promise_state \<Rightarrow> (nat \<rightharpoonup> promise_state) \<Rightarrow> (nat \<rightharpoonup> promise_state)" where
  "settle p v ps = (case ps p of Some Pending \<Rightarrow> ps(p \<mapsto> v) | _ \<Rightarrow> ps)"

text \<open>
  An entry of \<open>pendingRequests\<close>: the \<open>resolve\<close> and \<open>reject\<close> closures of one promise
  (field \<open>promise\<close>) and the handle of the deadline timer.
\<close>

record pending =
  promise :: nat
  timeout :: nat

record command =
  ctype :: string
  requestId :: "string option"
  payload :: "json option"

definition command_json :: "command \<Rightarrow> json" where
  "command_json c =
     JObj ([(''type'', JStr (ctype c))] @ opt_field ''payload'' (payload c)
           @ opt_field ''requestId'' (map_option JStr (requestId c)))"

text \<open>
  What the bridge does to the outside world, in order: calls of \<open>ws.send\<close> and
  \<open>ws.close\<close> on the socket with the given id, and lines written by \<open>console.error\<close>.
\<close>

datatype effect =
    WsSend string json
  | WsClose string nat string
  | ConsoleError string

text \<open>
  The process-wide state. A deadline timer that is still scheduled is an entry of
  \<open>timers\<close>: its delay and the \<open>requestId\<close> and promise its callback closes over.
  \<open>clearTimeout\<close> and firing both remove the entry.
\<close>

record bridge =
  currentClient :: "client option"
  pendingRequests :: "string \<rightharpoonup> pending"
  promises :: "nat \<rightharpoonup> promise_state"
  nextPromise :: nat
  timers :: "nat \<rightharpoonup> (nat \<times> string \<times> nat)"
  nextTimer :: nat
  effects :: "effect list"

definition bridge_init :: bridge where
  "bridge_init =
     \<lparr>currentClient = None, pendingRequests = Map.empty, promises = Map.empty,
      nextPromise = 0, timers = Map.empty, nextTimer = 0, effects = []\<rparr>"

definition emit :: "effect \<Rightarrow> bridge \<Rightarrow> bridge" where
  "emit e s = s\<lparr>effects := effects s @ [e]\<rparr>"

definition welcome_frame :: "string \<Rightarrow> string \<Rightarrow> json" where
  "welcome_frame cid now =
     JObj [(''type'', JStr ''welcome''),
           (''payload'', JObj [(''clientId'', JStr cid), (''timestamp'', JStr now)])]"

definition registered_frame :: json where
  "registered_frame =
     JObj [(''type'', JStr ''registered''), (''payload'', JObj [(''success'', JBool True)])]"

definition heartbeat_ack_frame :: "string \<Rightarrow> json" where
  "heartbeat_ack_frame now =
     JObj [(''type'', JStr ''heartbeat_ack''), (''payload'', JObj [(''timestamp'', JStr now)])]"

text \<open>
  \<open>websocket.open(ws)\<close>. \<open>now\<^sub>1\<close> and \<open>now\<^sub>2\<close> are the two clock readings
  (\<open>new Date()\<close>) of the handler.
\<close>

definition ws_open :: "bridge \<Rightarrow> string \<Rightarrow> string \<Rightarrow> string \<Rightarrow> bridge" where
  "ws_open s ws now1 now2 =
     (let s1 = (case currentClient s of
                  None \<Rightarrow> s
                | Some c \<Rightarrow> emit (WsClose (client_id c) 1000 ''New client connected'') s);
          cl = \<lparr>client_id = ws, addonId = None, connectedAt = now1\<rparr>;
          s2 = s1\<lparr>currentClient := Some cl\<rparr>
      in emit (WsSend ws (welcome_frame (client_id cl) now2)) s2)"

text \<open>
  A \<open>ws.send\<close> inside the \<open>try\<close> of the message handler: the call is made, and if it
  throws (\<open>tx = Some err\<close>) the \<open>catch\<close> logs.
\<close>

definition send_reply :: "bridge \<Rightarrow> string \<Rightarrow> json \<Rightarrow> js_error option \<Rightarrow> bridge" where
  "send_reply s ws frame tx =
     (let s1 = emit (WsSend ws frame) s
      in case tx of
           None \<Rightarrow> s1
         | Some err \<Rightarrow> emit (ConsoleError ''[!] Error processing message from client:'') s1)"

text \<open>
  The \<open>response\<close> case of the switch. The table's keys are strings, so a
  \<open>requestId\<close> that is not a string finds no entry.
\<close>

definition handle_response :: "bridge \<Rightarrow> json \<Rightarrow> bridge" where
  "handle_response s data =
     (let rid = get_prop data ''requestId'' in
      if js_truthy rid then
        (case as_string rid of
           None \<Rightarrow> s
         | Some r \<Rightarrow>
             (case pendingRequests s r of
                None \<Rightarrow> s
              | Some pend \<Rightarrow>
                  s\<lparr>timers := (timers s)(timeout pend := None),
                    promises := settle (promise pend) (Resolved (get_prop data ''payload'')) (promises s),
                    pendingRequests := (pendingRequests s)(r := None)\<rparr>))
      else s)"

text \<open>
  \<open>websocket.message(ws, message)\<close>. \<open>parsed\<close> is the outcome of
  \<open>JSON.parse(message.toString())\<close>, \<open>None\<close> when it throws; \<open>now\<close> is the clock
  reading of the heartbeat branch; \<open>tx\<close> says whether a \<open>ws.send\<close> made by the handler
  throws. Reading \<open>data.type\<close> of \<open>null\<close> throws inside the \<open>try\<close>. \<open>dispatch\<close> is
  the \<open>switch\<close>.
\<close>

definition dispatch ::
  "bridge \<Rightarrow> client \<Rightarrow> string \<Rightarrow> json \<Rightarrow> string \<Rightarrow> js_error option \<Rightarrow> bridge" where
  "dispatch s c ws data now tx =
     (let ty = get_prop data ''type'' in
      if ty = Some (JStr ''register'') then
        send_reply (s\<lparr>currentClient := Some (c\<lparr>addonId := get_prop data ''addonId''\<rparr>)\<rparr>)
          ws registered_frame tx
      else if ty = Some (JStr ''heartbeat'') then
        send_reply s ws (heartbeat_ack_frame now) tx
      else if ty = Some (JStr ''response'') then handle_response s data
      else emit (ConsoleError ''[?] Unknown message type'') s)"

definition ws_message ::
  "bridge \<Rightarrow> string \<Rightarrow> json option \<Rightarrow> string \<Rightarrow> js_error option \<Rightarrow> bridge" where
  "ws_message s ws parsed now tx =
     (case currentClient s of
        None \<Rightarrow> s
      | Some c \<Rightarrow>
          if client_id c \<noteq> ws then s
          else
            (case parsed of
               None \<Rightarrow> emit (ConsoleError ''[!] Error processing message from client:'') s
             | Some data \<Rightarrow>
                 if data = JNull
                 then emit (ConsoleError ''[!] Error processing message from client:'') s
                 else dispatch s c ws data now tx))"

text \<open>\<open>websocket.close(ws)\<close>.\<close>

definition ws_close :: "bridge \<Rightarrow> string \<Rightarrow> bridge" where
  "ws_close s ws =
     (case currentClient s of
        None \<Rightarrow> s
      | Some c \<Rightarrow> if client_id c = ws then s\<lparr>currentClient := None\<rparr> else s)"

text \<open>
  \<open>sendCommandToThunderbird(command, timeout)\<close>. \<open>rid\<close> is the value drawn from
  \<open>crypto.randomUUID()\<close>; \<open>tx\<close> says whether \<open>currentClient.ws.send\<close> throws. The
  frame is built from parsed tool arguments, so \<open>JSON.stringify\<close> does not throw on it.
  The result is the handle of the promise returned to the caller, and the new state.
\<close>

definition sendCommandToThunderbird ::
  "bridge \<Rightarrow> command \<Rightarrow> nat \<Rightarrow> string \<Rightarrow> js_error option \<Rightarrow> nat \<times> bridge" where
  "sendCommandToThunderbird s cmd ms rid tx =
     (let p = nextPromise s;
          s0 = s\<lparr>promises := (promises s)(p \<mapsto> Pending), nextPromise := Suc p\<rparr>
      in case currentClient s0 of
           None \<Rightarrow> (p, s0\<lparr>promises := settle p (Rejected NoClientConnected) (promises s0)\<rparr>)
         | Some c \<Rightarrow>
             (let cmd1 = cmd\<lparr>requestId := Some rid\<rparr>;
                  t = nextTimer s0;
                  s1 = s0\<lparr>timers := (timers s0)(t \<mapsto> (ms, rid, p)), nextTimer := Suc t\<rparr>;
                  s2 = s1\<lparr>pendingRequests := (pendingRequests s1)(rid \<mapsto> \<lparr>promise = p, timeout = t\<rparr>)\<rparr>;
                  s3 = emit (WsSend (client_id c) (command_json cmd1)) s2
              in case tx of
                   None \<Rightarrow> (p, s3)
                 | Some err \<Rightarrow>
                     (p, s3\<lparr>timers := (timers s3)(t := None),
                            pendingRequests := (pendingRequests s3)(rid := None),
                            promises := settle p (Rejected err) (promises s3)\<rparr>)))"

definition default_timeout :: nat where
  "default_timeout = 30000"

text \<open>
  The deadline callback of \<open>setTimeout\<close> runs for a timer that is still scheduled;
  on a cleared or already fired handle nothing happens.
\<close>

definition timeout_fires :: "bridge \<Rightarrow> nat \<Rightarrow> bridge" where
  "timeout_fires s t =
     (case timers s t of
        None \<Rightarrow> s
      | Some (ms, rid, p) \<Rightarrow>
          s\<lparr>timers := (timers s)(t := None),
            pendingRequests := (pendingRequests s)(rid := None),
            promises := settle p (Rejected RequestTimeout) (promises s)\<rparr>)"

text \<open>
  The states the bridge can be in: any interleaving of the handlers, of commands sent by
  the front-end and of deadline timers firing. A command draws a \<open>requestId\<close> that is
  not in the table at that moment (\<open>crypto.randomUUID()\<close>).
\<close>

inductive reachable :: "bridge \<Rightarrow> bool" where
  r_init: "reachable bridge_init"
| r_open: "reachable s \<Longrightarrow> reachable (ws_open s ws now1 now2)"
| r_message: "reachable s \<Longrightarrow> reachable (ws_message s ws parsed now tx)"
| r_close: "reachable s \<Longrightarrow> reachable (ws_close s ws)"
| r_send: "reachable s \<Longrightarrow> pendingRequests s rid = None \<Longrightarrow>
           reachable (snd (sendCommandToThunderbird s cmd ms rid tx))"
| r_timeout: "reachable s \<Longrightarrow> reachable (timeout_fires s t)"

text \<open>
  Delivering a sequence of response frames \<open>(requestId, payload)\<close> from the connection
  \<open>ws\<close>, one \<open>message\<close> event each, in the order of the list. The \<open>response\<close>
  branch reads no clock and sends nothing, so the last two arguments of \<open>ws_message\<close>
  play no part.
\<close>

definition response_frame :: "string \<Rightarrow> json \<Rightarrow> json" where
  "response_frame r v =
     JObj [(''type'', JStr ''response''), (''requestId'', JStr r), (''payload'', v)]"

fun deliver :: "bridge \<Rightarrow> string \<Rightarrow> (string \<times> json) list \<Rightarrow> bridge" where
  "deliver s ws [] = s"
| "deliver s ws ((r, v) # rs) =
     deliver (ws_message s ws (Some (response_frame r v)) [] None) ws rs"

section \<open>The front-end's post-processing of \<open>read_email\<close>\<close>

text \<open>\<open>typeof v === "object"\<close> for a truthy value, and \<open>k in v\<close> for such a value.\<close>

fun is_object :: "json \<Rightarrow> bool" where
  "is_object (JObj fs) = True"
| "is_object (JArr xs) = True"
| "is_object v = False"

fun has_prop :: "string \<Rightarrow> json \<Rightarrow> bool" where
  "has_prop k (JObj fs) = (k \<in> fst ` set fs)"
| "has_prop k v = False"

text \<open>\<open>obj.k = v\<close> keeps the position of an existing property; \<open>delete obj.k\<close>.\<close>

fun set_prop :: "string \<Rightarrow> json \<Rightarrow> (string \<times> json) list \<Rightarrow> (string \<times> json) list" where
  "set_prop k v [] = [(k, v)]"
| "set_prop k v ((k', v') # fs) =
     (if k' = k then (k, v) # fs else (k', v') # set_prop k v fs)"

definition delete_prop :: "string \<Rightarrow> (string \<times> json) list \<Rightarrow> (string \<times> json) list" where
  "delete_prop k fs = filter (\<lambda>kv. fst kv \<noteq> k) fs"

text \<open>
  The block after \<open>await sendCommandToThunderbird\<close> in the \<open>read_email\<close> case.
  \<open>turndown\<close> is the external converter: \<open>Inl\<close> when it throws. \<open>result.message\<close>
  is mutated in place, so the object bound to \<open>message\<close> in \<open>result\<close> changes with it.
\<close>

definition convert_read_email :: "(string \<Rightarrow> string + string) \<Rightarrow> json option \<Rightarrow> json option" where
  "convert_read_email turndown result =
     (case result of
        None \<Rightarrow> result
      | Some res \<Rightarrow>
          if truthy res \<and> is_object res \<and> has_prop ''success'' res \<and> has_prop ''message'' res
          then
            (case get_prop res ''message'' of
               None \<Rightarrow> result
             | Some msg \<Rightarrow>
                 if truthy msg \<and> is_object msg \<and> has_prop ''isHtml'' msg
                    \<and> js_truthy (get_prop msg ''isHtml'')
                 then
                   (case (as_object result, as_object (Some msg)) of
                      (Some fs, Some ms) \<Rightarrow>
                        (case as_string (map_of ms ''body'') of
                           None \<Rightarrow> result
                         | Some b \<Rightarrow>
                             (case turndown b of
                                Inl err \<Rightarrow> result
                              | Inr md \<Rightarrow>
                                  Some (JObj (set_prop ''message''
                                          (JObj (delete_prop ''isHtml'' (set_prop ''body'' (JStr md) ms)))
                                          fs))))
                    | _ \<Rightarrow> result)
                 else result)
          else result)"

text \<open>
  What the tool call returns: the content built from the (post-processed) result when the
  awaited promise resolved, the error envelope of the outer \<open>catch\<close> when it rejected.
\<close>

datatype tool_result = Content "json option" | IsError js_error

definition read_email_tool :: "(string \<Rightarrow> string + string) \<Rightarrow> promise_state \<Rightarrow> tool_result option" where
  "read_email_tool turndown outcome =
     (case outcome of
        Pending \<Rightarrow> None
      | Resolved result \<Rightarrow> Some (Content (convert_read_email turndown result))
      | Rejected err \<Rightarrow> Some (IsError err))"

section \<open>The worker (background.js): reconnection and command dispatch\<close>

datatype ready_state = CONNECTING | OPEN | CLOSING | CLOSED

text \<open>
  The globals \<open>ws\<close>, \<open>reconnectTimeout\<close> and \<open>heartbeatInterval\<close>, and what the
  platform holds: the \<open>readyState\<close> of every WebSocket object created so far, the
  \<open>setTimeout(connectToCC, _)\<close> timers that are still scheduled (with their delay), the
  active intervals (with their period), and the frames passed to \<open>ws.send\<close>. Timer
  handles are positive integers, hence truthy; a handle stays in its variable after the
  timer has fired.
\<close>

record worker =
  ws :: "nat option"
  readyState :: "nat \<Rightarrow> ready_state"
  nextSocket :: nat
  reconnectTimeout :: "nat option"
  heartbeatInterval :: "nat option"
  scheduled :: "nat \<rightharpoonup> nat"
  intervals :: "nat \<rightharpoonup> nat"
  nextHandle :: nat
  sent :: "(nat \<times> json) list"

definition RECONNECT_INTERVAL :: nat where
  "RECONNECT_INTERVAL = 5000"

definition HEARTBEAT_INTERVAL :: nat where
  "HEARTBEAT_INTERVAL = 30000"

definition worker_init :: worker where
  "worker_init =
     \<lparr>ws = None, readyState = (\<lambda>k. CLOSED), nextSocket = 0, reconnectTimeout = None,
      heartbeatInterval = None, scheduled = Map.empty, intervals = Map.empty,
      nextHandle = 1, sent = []\<rparr>"

text \<open>\<open>setTimeout(connectToCC, RECONNECT_INTERVAL)\<close> assigned to \<open>reconnectTimeout\<close>.\<close>

definition schedule_reconnect :: "worker \<Rightarrow> worker" where
  "schedule_reconnect w =
     (let t = nextHandle w
      in w\<lparr>reconnectTimeout := Some t,
           scheduled := (scheduled w)(t \<mapsto> RECONNECT_INTERVAL),
           nextHandle := Suc t\<rparr>)"

text \<open>\<open>connectToCC()\<close>; \<open>ctor_throws\<close> says whether \<open>new WebSocket(url)\<close> throws.\<close>

definition connectToCC :: "worker \<Rightarrow> bool \<Rightarrow> worker" where
  "connectToCC w ctor_throws =
     (if ctor_throws then schedule_reconnect w
      else
        (let k = nextSocket w
         in w\<lparr>ws := Some k, readyState := (readyState w)(k := CONNECTING), nextSocket := Suc k\<rparr>))"

definition sendToCC :: "worker \<Rightarrow> json \<Rightarrow> worker \<times> bool" where
  "sendToCC w msg =
     (case ws w of
        None \<Rightarrow> (w, False)
      | Some k \<Rightarrow>
          if readyState w k = OPEN then (w\<lparr>sent := sent w @ [(k, msg)]\<rparr>, True)
          else (w, False))"

definition clear_heartbeat :: "worker \<Rightarrow> worker" where
  "clear_heartbeat w =
     (case heartbeatInterval w of
        None \<Rightarrow> w
      | Some h \<Rightarrow> w\<lparr>intervals := (intervals w)(h := None)\<rparr>)"

text \<open>The \<open>onopen\<close> handler; \<open>addon\<close> is \<open>browser.runtime.id\<close>.\<close>

definition onopen :: "worker \<Rightarrow> string \<Rightarrow> string \<Rightarrow> worker" where
  "onopen w addon now =
     (let w1 = fst (sendToCC w (JObj [(''type'', JStr ''register''), (''addonId'', JStr addon),
                                      (''timestamp'', JStr now)]));
          w2 = clear_heartbeat w1;
          h = nextHandle w2;
          w3 = w2\<lparr>heartbeatInterval := Some h,
                  intervals := (intervals w2)(h \<mapsto> HEARTBEAT_INTERVAL),
                  nextHandle := Suc h\<rparr>
      in case reconnectTimeout w3 of
           None \<Rightarrow> w3
         | Some t \<Rightarrow> w3\<lparr>scheduled := (scheduled w3)(t := None), reconnectTimeout := None\<rparr>)"

text \<open>The \<open>onclose\<close> handler.\<close>

definition onclose :: "worker \<Rightarrow> worker" where
  "onclose w =
     (let w1 = w\<lparr>ws := None\<rparr>;
          w2 = (case heartbeatInterval w1 of
                  None \<Rightarrow> w1
                | Some h \<Rightarrow> (clear_heartbeat w1)\<lparr>heartbeatInterval := None\<rparr>)
      in case reconnectTimeout w2 of
           None \<Rightarrow> schedule_reconnect w2
         | Some t \<Rightarrow> w2)"

text \<open>
  Platform events: socket \<open>k\<close> opens or closes (its \<open>readyState\<close> changes, then its
  handler runs), a scheduled reconnect timer fires, the heartbeat interval ticks. A failed
  connection attempt is a socket that closes without having opened. The \<open>onerror\<close>
  handler only logs.
\<close>

definition socket_opens :: "worker \<Rightarrow> nat \<Rightarrow> string \<Rightarrow> string \<Rightarrow> worker" where
  "socket_opens w k addon now = onopen (w\<lparr>readyState := (readyState w)(k := OPEN)\<rparr>) addon now"

definition socket_closes :: "worker \<Rightarrow> nat \<Rightarrow> worker" where
  "socket_closes w k = onclose (w\<lparr>readyState := (readyState w)(k := CLOSED)\<rparr>)"

definition reconnect_fires :: "worker \<Rightarrow> nat \<Rightarrow> bool \<Rightarrow> worker" where
  "reconnect_fires w t ctor_throws =
     (case scheduled w t of
        None \<Rightarrow> w
      | Some d \<Rightarrow> connectToCC (w\<lparr>scheduled := (scheduled w)(t := None)\<rparr>) ctor_throws)"

definition heartbeat_tick :: "worker \<Rightarrow> nat \<Rightarrow> worker" where
  "heartbeat_tick w h =
     (case intervals w h of
        None \<Rightarrow> w
      | Some d \<Rightarrow> fst (sendToCC w (JObj [(''type'', JStr ''heartbeat'')])))"

text \<open>
  What a handler can throw, as the \<open>catch\<close> of \<open>handleCommand\<close> sees it. The
  \<open>catch\<close> reads \<open>error.message\<close> and \<open>error.stack\<close> of whatever was thrown:
  on \<open>null\<close> or \<open>undefined\<close> that read itself throws; on any other value it yields
  the two properties, each \<open>None\<close> when it is \<open>undefined\<close>. An \<open>Error\<close> has both
  as strings; a thrown string, or the \<open>ProgressEvent\<close> that \<open>reader.onerror = reject\<close>
  passes on in the attachment handlers, has neither.
\<close>

datatype thrown = ThrownNullish | ThrownValue "json option" "json option"

text \<open>
  The domain executor is external: \<open>exec name payload\<close> stands for the handler the
  switch selects for a known command type. Every handler returns an object literal when
  it returns; otherwise it throws (its promise rejects) with some value.
\<close>

datatype exec_result = Returned json | Raised thrown

definition known_commands :: "string list" where
  "known_commands =
     [''list_accounts'', ''list_folders'', ''list_unread_emails'', ''search_emails'',
      ''read_email_raw'', ''read_email'', ''send_email'', ''read_email_attachments'',
      ''download_attachment'']"

definition unknown_result :: "json option \<Rightarrow> json" where
  "unknown_result ty =
     JObj ([(''success'', JBool False), (''error'', JStr ''Unknown command type'')]
           @ opt_field ''commandType'' ty)"

text \<open>
  The payload built in the \<open>catch\<close>; \<open>JSON.stringify\<close> drops \<open>error\<close> and
  \<open>stack\<close> when they are \<open>undefined\<close>.
\<close>

definition error_result :: "json option \<Rightarrow> json option \<Rightarrow> json" where
  "error_result msg stack =
     JObj ([(''success'', JBool False)] @ opt_field ''error'' msg @ opt_field ''stack'' stack)"

definition response_to :: "json option \<Rightarrow> json \<Rightarrow> json" where
  "response_to rid result =
     JObj ([(''type'', JStr ''response'')] @ opt_field ''requestId'' rid @ [(''payload'', result)])"

text \<open>
  \<open>handleCommand(command)\<close>. The function is asynchronous: \<open>w\<close> is the worker's
  state at the moment the reply is handed to \<open>sendToCC\<close>, that is after the executor
  has finished. Destructuring \<open>null\<close> throws before the \<open>try\<close>, and nothing is sent.
  In the \<open>catch\<close> the payload is built, reading \<open>error.message\<close>, only when
  \<open>requestId\<close> is truthy; if the thrown value is \<open>null\<close> or \<open>undefined\<close> that
  read throws out of the \<open>catch\<close> and nothing is sent. The results are plain data and
  \<open>sendToCC\<close> sends only on an open socket, so \<open>sendToCC\<close> itself does not throw.
\<close>

definition handleCommand ::
  "(string \<Rightarrow> json option \<Rightarrow> exec_result) \<Rightarrow> worker \<Rightarrow> json \<Rightarrow> worker" where
  "handleCommand exec w cmd =
     (if cmd = JNull then w
      else
          (let ty = get_prop cmd ''type'';
               rid = get_prop cmd ''requestId'';
               pl = get_prop cmd ''payload''
           in if ty = Some (JStr ''welcome'') then w
              else if ty = Some (JStr ''registered'') then w
              else if ty = Some (JStr ''heartbeat_ack'') then w
              else
                (case (case as_string ty of
                         None \<Rightarrow> Returned (unknown_result ty)
                       | Some name \<Rightarrow>
                           if name \<in> set known_commands then exec name pl
                           else Returned (unknown_result ty)) of
                   Returned result \<Rightarrow>
                     if js_truthy rid then fst (sendToCC w (response_to rid result)) else w
                 | Raised err \<Rightarrow>
                     if js_truthy rid then
                       (case err of
                          ThrownNullish \<Rightarrow> w
                        | ThrownValue msg stack \<Rightarrow>
                            fst (sendToCC w (response_to rid (error_result msg stack))))
                     else w)))"

text \<open>The states the worker can be in, from the \<open>connectToCC()\<close> call at start-up.\<close>

inductive worker_reachable :: "worker \<Rightarrow> bool" where
  wr_start: "worker_reachable (connectToCC worker_init ctor_throws)"
| wr_opens: "worker_reachable w \<Longrightarrow> worker_reachable (socket_opens w k addon now)"
| wr_closes: "worker_reachable w \<Longrightarrow> worker_reachable (socket_closes w k)"
| wr_fires: "worker_reachable w \<Longrightarrow> worker_reachable (reconnect_fires w t ctor_throws)"
| wr_tick: "worker_reachable w \<Longrightarrow> worker_reachable (heartbeat_tick w h)"
| wr_command: "worker_reachable w \<Longrightarrow> worker_reachable (handleCommand exec w cmd)"

section \<open>Well-formed correlation tables and example states\<close>

text \<open>
  The relation between the table, the promises and the deadline timers: an entry's promise
  is pending and its timer is scheduled for it; every scheduled timer belongs to the entry
  of its \<open>requestId\<close>; every pending promise has an entry; entries do not share a
  promise; handles at or above the counters are unused.
\<close>

definition table_inv :: "bridge \<Rightarrow> bool" where
  "table_inv s \<longleftrightarrow>
     (\<forall>r e. pendingRequests s r = Some e \<longrightarrow>
        promises s (promise e) = Some Pending \<and> (\<exists>ms. timers s (timeout e) = Some (ms, r, promise e)))
   \<and> (\<forall>t ms r p. timers s t = Some (ms, r, p) \<longrightarrow>
        pendingRequests s r = Some \<lparr>promise = p, timeout = t\<rparr>)
   \<and> (\<forall>p. promises s p = Some Pending \<longrightarrow> (\<exists>r e. pendingRequests s r = Some e \<and> promise e = p))
   \<and> (\<forall>r r' e e'. pendingRequests s r = Some e \<and> pendingRequests s r' = Some e' \<and> promise e = promise e' \<longrightarrow> r = r')
   \<and> (\<forall>p. nextPromise s \<le> p \<longrightarrow> promises s p = None)
   \<and> (\<forall>t. nextTimer s \<le> t \<longrightarrow> timers s t = None)"

text \<open>Example states: a connected bridge with no, one and two commands in flight.\<close>

definition example_cmd :: command where
  "example_cmd = \<lparr>ctype = ''list_accounts'', requestId = None, payload = Some (JObj [])\<rparr>"

definition example_connected :: bridge where
  "example_connected = ws_open bridge_init ''w1'' ''t0'' ''t0''"

definition example_inflight :: bridge where
  "example_inflight = snd (sendCommandToThunderbird example_connected example_cmd default_timeout ''r1'' None)"

definition example_two_inflight :: bridge where
  "example_two_inflight = snd (sendCommandToThunderbird example_inflight example_cmd default_timeout ''r2'' None)"

text \<open>
  Example worker states: connected and registered; disconnected after that; and the state
  after the start-up connection has failed, the reconnect timer has fired and the second
  connection has failed too. \<open>example_exec\<close> is an executor that returns an empty
  account list; \<open>example_exec_rejects\<close> is one whose promise rejects with a value that
  has neither a message nor a stack, as \<open>reader.onerror = reject\<close> does.
\<close>

definition example_exec :: "string \<Rightarrow> json option \<Rightarrow> exec_result" where
  "example_exec name pl =
     Returned (JObj [(''success'', JBool True), (''accounts'', JArr []), (''count'', JNum 0)])"

definition example_exec_rejects :: "string \<Rightarrow> json option \<Rightarrow> exec_result" where
  "example_exec_rejects name pl = Raised (ThrownValue None None)"

definition example_command :: json where
  "example_command =
     JObj [(''type'', JStr ''list_accounts''), (''requestId'', JStr ''r1''), (''payload'', JObj [])]"

definition example_worker_open :: worker where
  "example_worker_open = socket_opens (connectToCC worker_init False) 0 ''addon'' ''t0''"

definition example_worker_closed :: worker where
  "example_worker_closed = socket_closes example_worker_open 0"

definition example_retry_failed :: worker where
  "example_retry_failed =
     socket_closes (reconnect_fires (socket_closes (connectToCC worker_init False) 0) 1 False) 1"

text \<open>
  Frame types of the worker: the three control types it only logs, and the command types
  the switch knows.
\<close>

definition is_control :: "json option \<Rightarrow> bool" where
  "is_control ty \<longleftrightarrow> ty = Some (JStr ''welcome'') \<or> ty = Some (JStr ''registered'') \<or> ty = Some (JStr ''heartbeat_ack'')"

definition is_known :: "json option \<Rightarrow> bool" where
  "is_known ty \<longleftrightarrow> (case as_string ty of None \<Rightarrow> False | Some name \<Rightarrow> name \<in> set known_commands)"

text \<open>
  A worker that holds a stale timer handle while no timer is scheduled; and the property
  that every scheduled reconnect timer is the one recorded in \<open>reconnectTimeout\<close>.
\<close>

definition gave_up :: "worker \<Rightarrow> bool" where
  "gave_up w \<longleftrightarrow> scheduled w = Map.empty \<and> reconnectTimeout w \<noteq> None"

definition one_timer :: "worker \<Rightarrow> bool" where
  "one_timer w \<longleftrightarrow> (\<forall>t. scheduled w t \<noteq> None \<longrightarrow> reconnectTimeout w = Some t)"

text \<open>An example converter and an example \<open>read_email\<close> result with an HTML body.\<close>

definition example_turndown :: "string \<Rightarrow> string + string" where
  "example_turndown html = (if html = ''<b>hi</b>'' then Inr ''**hi**'' else Inl ''not a string'')"

definition example_email :: json where
  "example_email =
     JObj [(''success'', JBool True),
           (''message'', JObj [(''id'', JNum 7), (''body'', JStr ''<b>hi</b>''), (''isHtml'', JBool True)])]"


section \<open>Runs of the bridge\<close>

text \<open>
  The events of the bridge as data: the three socket handlers, a command sent by the
  front-end, and a deadline timer firing. \<open>step\<close> applies one event, \<open>run\<close> a
  sequence. \<open>fresh\<close> is the assumption made of \<open>crypto.randomUUID()\<close>: a command
  draws a \<open>requestId\<close> that is not in the table at that moment.
\<close>

datatype event =
    EvOpen string string string
  | EvMessage string "json option" string "js_error option"
  | EvClose string
  | EvSend command nat string "js_error option"
  | EvTimeout nat

fun step :: "bridge \<Rightarrow> event \<Rightarrow> bridge" where
  "step s (EvOpen conn now1 now2) = ws_open s conn now1 now2"
| "step s (EvMessage conn parsed now tx) = ws_message s conn parsed now tx"
| "step s (EvClose conn) = ws_close s conn"
| "step s (EvSend cmd ms rid tx) = snd (sendCommandToThunderbird s cmd ms rid tx)"
| "step s (EvTimeout t) = timeout_fires s t"

fun fresh :: "bridge \<Rightarrow> event \<Rightarrow> bool" where
  "fresh s (EvSend cmd ms rid tx) = (pendingRequests s rid = None)"
| "fresh s ev = True"

fun run :: "bridge \<Rightarrow> event list \<Rightarrow> bridge" where
  "run s [] = s"
| "run s (ev # evs) = run (step s ev) evs"

fun fresh_run :: "bridge \<Rightarrow> event list \<Rightarrow> bool" where
  "fresh_run s [] = True"
| "fresh_run s (ev # evs) = (fresh s ev \<and> fresh_run (step s ev) evs)"

text \<open>
  The event is the arrival of a response frame that carries the request identifier \<open>r\<close>
  and the payload \<open>v\<close> (\<open>None\<close> when the frame has no payload).
\<close>

fun answers :: "event \<Rightarrow> string \<Rightarrow> json option \<Rightarrow> bool" where
  "answers (EvMessage conn (Some d) now tx) r v =
     (get_prop d ''type'' = Some (JStr ''response'') \<and> get_prop d ''requestId'' = Some (JStr r)
      \<and> get_prop d ''payload'' = v)"
| "answers ev r v = False"

text \<open>
  What has become of the request \<open>rid\<close> whose caller holds promise \<open>p\<close> and whose
  deadline timer is \<open>t\<close>, after the events \<open>evs\<close>: still pending with its entry in the
  table; resolved, with the payload of a response frame for \<open>rid\<close> that arrived; or
  rejected by its deadline.
\<close>

definition tracked :: "string \<Rightarrow> nat \<Rightarrow> nat \<Rightarrow> bridge \<Rightarrow> event list \<Rightarrow> bool" where
  "tracked rid p t s evs \<longleftrightarrow>
     (promises s p = Some Pending \<and> pendingRequests s rid = Some \<lparr>promise = p, timeout = t\<rparr>)
   \<or> (\<exists>v. promises s p = Some (Resolved v) \<and> (\<exists>ev \<in> set evs. answers ev rid v))
   \<or> (promises s p = Some (Rejected RequestTimeout) \<and> EvTimeout t \<in> set evs)"


section \<open>The table invariant holds in every reachable state\<close>

lemma inv_init: "table_inv bridge_init"
  by (simp add: table_inv_def bridge_init_def)

lemma inv_open: "table_inv s \<Longrightarrow> table_inv (ws_open s conn n1 n2)"
  by (simp add: table_inv_def ws_open_def emit_def Let_def split: option.splits)

lemma inv_close: "table_inv s \<Longrightarrow> table_inv (ws_close s conn)"
  by (simp add: table_inv_def ws_close_def split: option.splits)

lemma inv_emit: "table_inv (emit e s) = table_inv s"
  by (simp add: table_inv_def emit_def)

lemma table_inv_cong:
  "pendingRequests s' = pendingRequests s \<Longrightarrow> promises s' = promises s \<Longrightarrow> timers s' = timers s \<Longrightarrow>
   nextPromise s' = nextPromise s \<Longrightarrow> nextTimer s' = nextTimer s \<Longrightarrow> table_inv s' = table_inv s"
  by (simp add: table_inv_def)

lemma invD1: "table_inv s \<Longrightarrow> pendingRequests s r = Some e \<Longrightarrow> promises s (promise e) = Some Pending"
  unfolding table_inv_def by (elim conjE allE[of _ r] allE[of _ e]) simp

lemma invD1': "table_inv s \<Longrightarrow> pendingRequests s r = Some e \<Longrightarrow> \<exists>ms. timers s (timeout e) = Some (ms, r, promise e)"
  unfolding table_inv_def by (elim conjE allE[of _ r] allE[of _ e]) simp

lemma invD2: "table_inv s \<Longrightarrow> timers s t = Some (ms, r, p) \<Longrightarrow> pendingRequests s r = Some \<lparr>promise = p, timeout = t\<rparr>"
  unfolding table_inv_def by blast

lemma invD3: "table_inv s \<Longrightarrow> promises s p = Some Pending \<Longrightarrow> \<exists>r e. pendingRequests s r = Some e \<and> promise e = p"
  unfolding table_inv_def by blast

lemma invD4: "table_inv s \<Longrightarrow> pendingRequests s r = Some e \<Longrightarrow> pendingRequests s r' = Some e' \<Longrightarrow> promise e = promise e' \<Longrightarrow> r = r'"
  unfolding table_inv_def by blast

lemma invD5: "table_inv s \<Longrightarrow> nextPromise s \<le> p \<Longrightarrow> promises s p = None"
  unfolding table_inv_def by blast

lemma invD6: "table_inv s \<Longrightarrow> nextTimer s \<le> t \<Longrightarrow> timers s t = None"
  unfolding table_inv_def by blast


lemma inv_remove:
  assumes inv: "table_inv s" and e: "pendingRequests s r = Some e" and v: "v \<noteq> Pending"
    and s': "pendingRequests s' = (pendingRequests s)(r := None)"
            "promises s' = settle (promise e) v (promises s)"
            "timers s' = (timers s)(timeout e := None)"
            "nextPromise s' = nextPromise s" "nextTimer s' = nextTimer s"
  shows "table_inv s'"
proof -
  note i1 = invD1[OF inv] and i1' = invD1'[OF inv] and i2 = invD2[OF inv] and i3 = invD3[OF inv]
    and i4 = invD4[OF inv] and i5 = invD5[OF inv] and i6 = invD6[OF inv]
  have st: "promises s' = (promises s)(promise e \<mapsto> v)"
    by (simp add: s' settle_def i1[OF e])
  have c1: "promises s' (promise e') = Some Pending \<and> (\<exists>ms. timers s' (timeout e') = Some (ms, r', promise e'))"
    if h: "pendingRequests s' r' = Some e'" for r' e'
  proof -
    from h have ne: "r' \<noteq> r" and h': "pendingRequests s r' = Some e'"
      by (auto simp: s' split: if_splits)
    from i4[OF h' e] ne have "promise e' \<noteq> promise e" by blast
    moreover from i1'[OF h'] i1'[OF e] ne have "timeout e' \<noteq> timeout e" by auto
    ultimately show ?thesis using i1[OF h'] i1'[OF h'] by (simp add: st s')
  qed
  have c2: "pendingRequests s' r' = Some \<lparr>promise = p, timeout = t\<rparr>"
    if h: "timers s' t = Some (ms, r', p)" for t ms r' p
  proof -
    from h have ne: "t \<noteq> timeout e" and h': "timers s t = Some (ms, r', p)"
      by (auto simp: s' split: if_splits)
    from i2[OF h'] e ne have "r' \<noteq> r" by auto
    then show ?thesis using i2[OF h'] by (simp add: s')
  qed
  have c3: "\<exists>r' e'. pendingRequests s' r' = Some e' \<and> promise e' = p"
    if h: "promises s' p = Some Pending" for p
  proof -
    from h v have ne: "p \<noteq> promise e" and h': "promises s p = Some Pending"
      by (auto simp: st split: if_splits)
    from i3[OF h'] obtain r' e' where x: "pendingRequests s r' = Some e'" "promise e' = p" by blast
    with ne e have "r' \<noteq> r" by auto
    with x show ?thesis by (auto simp: s')
  qed
  have c4: "r1 = r2" if "pendingRequests s' r1 = Some e1" "pendingRequests s' r2 = Some e2" "promise e1 = promise e2"
    for r1 r2 e1 e2
    using that i4[of r1 e1 r2 e2] by (auto simp: s' split: if_splits)
  have c5: "promises s' p = None" if "nextPromise s' \<le> p" for p
  proof -
    from i1[OF e] i5[of "promise e"] have "promise e < nextPromise s" by (cases "nextPromise s \<le> promise e") auto
    with that show ?thesis using i5[of p] by (simp add: st s')
  qed
  have c6: "timers s' t = None" if "nextTimer s' \<le> t" for t
    using that i6[of t] by (simp add: s')
  show ?thesis
    unfolding table_inv_def
    apply (intro conjI allI impI)
    subgoal for r' e' using c1[of r' e'] by simp
    subgoal for r' e' using c1[of r' e'] by simp
    subgoal for t ms r' p by (rule c2)
    subgoal for p by (rule c3)
    subgoal for r1 r2 e1 e2 using c4[of r1 e1 r2 e2] by simp
    subgoal for p by (rule c5)
    subgoal for t by (rule c6)
    done
qed


lemma inv_timeout: "table_inv s \<Longrightarrow> table_inv (timeout_fires s t)"
proof (cases "timers s t")
  case None then show "table_inv s \<Longrightarrow> ?thesis" by (simp add: timeout_fires_def)
next
  case (Some x)
  assume inv: "table_inv s"
  obtain ms r p where x: "x = (ms, r, p)" by (cases x)
  from invD2[OF inv] Some x have e: "pendingRequests s r = Some \<lparr>promise = p, timeout = t\<rparr>"
    by simp
  show ?thesis
    by (rule inv_remove[OF inv e, of "Rejected RequestTimeout"]) (simp_all add: timeout_fires_def Some x)
qed

lemma handle_response_miss:
  "as_string (get_prop d ''requestId'') = None \<or> get_prop d ''requestId'' = Some (JStr r) \<and> (r = [] \<or> pendingRequests s r = None)
   \<Longrightarrow> handle_response s d = s"
  by (auto simp: handle_response_def Let_def)

lemma handle_response_hit:
  "get_prop d ''requestId'' = Some (JStr r) \<Longrightarrow> r \<noteq> [] \<Longrightarrow> pendingRequests s r = Some e \<Longrightarrow>
   handle_response s d =
     s\<lparr>timers := (timers s)(timeout e := None),
       promises := settle (promise e) (Resolved (get_prop d ''payload'')) (promises s),
       pendingRequests := (pendingRequests s)(r := None)\<rparr>"
  by (simp add: handle_response_def Let_def)

lemma as_string_Some: "as_string v = Some x \<longleftrightarrow> v = Some (JStr x)"
  by (cases v rule: as_string.cases) auto

lemma handle_response_cases:
  obtains (miss) "handle_response s d = s"
  | (hit) r e where "get_prop d ''requestId'' = Some (JStr r)" "r \<noteq> []" "pendingRequests s r = Some e"
proof (cases "as_string (get_prop d ''requestId'')")
  case None
  then have "handle_response s d = s" by (simp add: handle_response_miss)
  then show ?thesis by (rule miss)
next
  case (Some r)
  then have g: "get_prop d ''requestId'' = Some (JStr r)" by (simp add: as_string_Some)
  show ?thesis
  proof (cases "r = [] \<or> pendingRequests s r = None")
    case True
    with g have "handle_response s d = s" by (simp add: handle_response_miss)
    then show ?thesis by (rule miss)
  next
    case False
    then obtain e where "pendingRequests s r = Some e" "r \<noteq> []" by auto
    with g show ?thesis using hit by blast
  qed
qed

lemma inv_response: "table_inv s \<Longrightarrow> table_inv (handle_response s d)"
proof (rule handle_response_cases[of s d])
  assume "table_inv s" "handle_response s d = s"
  then show ?thesis by simp
next
  fix r e
  assume inv: "table_inv s" and g: "get_prop d ''requestId'' = Some (JStr r)" and r: "r \<noteq> []"
    and e: "pendingRequests s r = Some e"
  show ?thesis
    by (rule inv_remove[OF inv e, of "Resolved (get_prop d ''payload'')"])
       (simp_all add: handle_response_hit[OF g r e])
qed

lemma inv_reply: "table_inv (send_reply s conn f tx) = table_inv s"
  by (simp add: send_reply_def Let_def inv_emit split: option.splits)

lemma inv_addon: "table_inv (s\<lparr>currentClient := c\<rparr>) = table_inv s"
  by (simp add: table_inv_def)

lemma inv_dispatch: "table_inv s \<Longrightarrow> table_inv (dispatch s c conn d now tx)"
  by (simp add: dispatch_def Let_def inv_emit inv_reply inv_addon inv_response)

lemma inv_message: "table_inv s \<Longrightarrow> table_inv (ws_message s conn parsed now tx)"
  by (simp add: ws_message_def inv_emit inv_dispatch split: option.splits)


lemma send_projections:
  "promises (snd (sendCommandToThunderbird s cmd ms rid tx)) =
     (promises s)(nextPromise s \<mapsto>
        (case currentClient s of None \<Rightarrow> Rejected NoClientConnected
         | Some c \<Rightarrow> (case tx of None \<Rightarrow> Pending | Some err \<Rightarrow> Rejected err)))"
  "pendingRequests (snd (sendCommandToThunderbird s cmd ms rid tx)) =
     (case currentClient s of None \<Rightarrow> pendingRequests s
      | Some c \<Rightarrow> (case tx of None \<Rightarrow> (pendingRequests s)(rid \<mapsto> \<lparr>promise = nextPromise s, timeout = nextTimer s\<rparr>)
                    | Some err \<Rightarrow> (pendingRequests s)(rid := None)))"
  "timers (snd (sendCommandToThunderbird s cmd ms rid tx)) =
     (case currentClient s of None \<Rightarrow> timers s
      | Some c \<Rightarrow> (case tx of None \<Rightarrow> (timers s)(nextTimer s \<mapsto> (ms, rid, nextPromise s))
                    | Some err \<Rightarrow> (timers s)(nextTimer s := None)))"
  "nextPromise (snd (sendCommandToThunderbird s cmd ms rid tx)) = Suc (nextPromise s)"
  "nextTimer (snd (sendCommandToThunderbird s cmd ms rid tx)) =
     (case currentClient s of None \<Rightarrow> nextTimer s | Some c \<Rightarrow> Suc (nextTimer s))"
  "currentClient (snd (sendCommandToThunderbird s cmd ms rid tx)) = currentClient s"
  "fst (sendCommandToThunderbird s cmd ms rid tx) = nextPromise s"
  by (simp_all add: sendCommandToThunderbird_def Let_def settle_def emit_def split: option.splits)

lemma inv_send:
  assumes inv: "table_inv s" and fresh: "pendingRequests s rid = None"
  shows "table_inv (snd (sendCommandToThunderbird s cmd ms rid tx))"
proof -
  note i1 = invD1[OF inv] and i1' = invD1'[OF inv] and i2 = invD2[OF inv] and i3 = invD3[OF inv]
    and i4 = invD4[OF inv] and i5 = invD5[OF inv] and i6 = invD6[OF inv]
  let ?s' = "snd (sendCommandToThunderbird s cmd ms rid tx)"
  let ?p = "nextPromise s" and ?t = "nextTimer s"
  have pnew: "promises s ?p = None" and tnew: "timers s ?t = None"
    using i5[of ?p] i6[of ?t] by simp_all
  have pe: "promise e \<noteq> ?p" if "pendingRequests s r = Some e" for r e
    using i1[OF that] pnew by auto
  have te: "timeout e \<noteq> ?t" if "pendingRequests s r = Some e" for r e
    using i1'[OF that] tnew by auto
  have tr: "r \<noteq> rid" if "timers s t = Some (d, r, p)" for t d r p
    using i2[OF that] fresh by auto
  show ?thesis
  proof (cases "currentClient s = None \<or> tx \<noteq> None")
    case True
    define v where "v = (case currentClient s of None \<Rightarrow> Rejected NoClientConnected
         | Some c \<Rightarrow> (case tx of None \<Rightarrow> Pending | Some err \<Rightarrow> Rejected err))"
    have v: "v \<noteq> Pending"
      using True by (auto simp: v_def split: option.splits)
    have pr: "promises ?s' = (promises s)(?p \<mapsto> v)"
      by (simp add: send_projections v_def)
    have pd: "pendingRequests ?s' = pendingRequests s"
      using True fresh by (auto simp: send_projections split: option.splits)
    have tm: "timers ?s' = timers s"
      using True tnew by (auto simp: send_projections split: option.splits)
    have np: "nextPromise ?s' = Suc ?p"
      by (simp add: send_projections)
    have nt: "nextTimer s \<le> nextTimer ?s'"
      by (simp add: send_projections split: option.splits)
    show ?thesis
      unfolding table_inv_def pr pd tm np
      apply (intro conjI allI impI)
      subgoal for r e using i1[of r e] pe[of r e] by simp
      subgoal for r e using i1'[of r e] by simp
      subgoal for t d r p by (rule i2)
      subgoal for p using i3[of p] v by (simp split: if_splits)
      subgoal for r r' e e' using i4[of r e r' e'] by simp
      subgoal for p using i5[of p] by simp
      subgoal for t using i6[of t] nt by simp
      done
  next
    case False
    then obtain c where c: "currentClient s = Some c" and tx: "tx = None" by auto
    have pr: "promises ?s' = (promises s)(?p \<mapsto> Pending)" and
      pd: "pendingRequests ?s' = (pendingRequests s)(rid \<mapsto> \<lparr>promise = ?p, timeout = ?t\<rparr>)" and
      tm: "timers ?s' = (timers s)(?t \<mapsto> (ms, rid, ?p))" and
      np: "nextPromise ?s' = Suc ?p" and nt: "nextTimer ?s' = Suc ?t"
      by (simp_all add: send_projections c tx)
    show ?thesis
      unfolding table_inv_def pr pd tm np nt
      apply (intro conjI allI impI)
      subgoal for r e using i1[of r e] pe[of r e] by (auto split: if_splits)
      subgoal for r e using i1'[of r e] te[of r e] by (auto split: if_splits)
      subgoal for t d r p using i2[of t d r p] tr[of t d r p] by (auto split: if_splits)
      subgoal for p
      proof (cases "p = ?p")
        case True
        then show ?thesis by (intro exI[of _ rid]) simp
      next
        case False
        assume "((promises s)(?p \<mapsto> Pending)) p = Some Pending"
        with False have "promises s p = Some Pending" by simp
        from i3[OF this] obtain r e where re: "pendingRequests s r = Some e" "promise e = p" by blast
        with fresh have "r \<noteq> rid" by auto
        with re show ?thesis by (intro exI[of _ r] exI[of _ e]) simp
      qed
      subgoal for r r' e e' using i4[of r e r' e'] pe[of r e] pe[of r' e'] by (auto split: if_splits)
      subgoal for p using i5[of p] by simp
      subgoal for t using i6[of t] by simp
      done
  qed
qed

lemma reachable_inv: "reachable s \<Longrightarrow> table_inv s"
  by (induction rule: reachable.induct)
     (simp_all add: inv_init inv_open inv_message inv_close inv_send inv_timeout)

subsection \<open>The example states, evaluated\<close>

lemma example_connected_simps:
  "currentClient example_connected = Some \<lparr>client_id = ''w1'', addonId = None, connectedAt = ''t0''\<rparr>"
  "pendingRequests example_connected = Map.empty"
  "promises example_connected = Map.empty"
  "timers example_connected = Map.empty"
  "nextPromise example_connected = 0"
  "nextTimer example_connected = 0"
  by (simp_all add: example_connected_def ws_open_def bridge_init_def emit_def Let_def)

lemma example_inflight_simps:
  "currentClient example_inflight = Some \<lparr>client_id = ''w1'', addonId = None, connectedAt = ''t0''\<rparr>"
  "pendingRequests example_inflight = [''r1'' \<mapsto> \<lparr>promise = 0, timeout = 0\<rparr>]"
  "promises example_inflight = [0 \<mapsto> Pending]"
  "timers example_inflight = [0 \<mapsto> (default_timeout, ''r1'', 0)]"
  "nextPromise example_inflight = 1"
  "nextTimer example_inflight = 1"
  by (simp_all add: example_inflight_def send_projections example_connected_simps)

lemma example_two_inflight_simps:
  "currentClient example_two_inflight = Some \<lparr>client_id = ''w1'', addonId = None, connectedAt = ''t0''\<rparr>"
  "pendingRequests example_two_inflight = [''r1'' \<mapsto> \<lparr>promise = 0, timeout = 0\<rparr>, ''r2'' \<mapsto> \<lparr>promise = 1, timeout = 1\<rparr>]"
  "promises example_two_inflight = [0 \<mapsto> Pending, 1 \<mapsto> Pending]"
  "timers example_two_inflight = [0 \<mapsto> (default_timeout, ''r1'', 0), 1 \<mapsto> (default_timeout, ''r2'', 1)]"
  "nextPromise example_two_inflight = 2"
  "nextTimer example_two_inflight = 2"
  by (simp_all add: example_two_inflight_def send_projections example_inflight_simps)

lemma example_reachable:
  "reachable example_connected" "reachable example_inflight" "reachable example_two_inflight"
proof -
  show a: "reachable example_connected"
    unfolding example_connected_def by (intro r_open r_init)
  show b: "reachable example_inflight"
    unfolding example_inflight_def by (rule r_send[OF a]) (simp add: example_connected_simps)
  show "reachable example_two_inflight"
    unfolding example_two_inflight_def by (rule r_send[OF b]) (simp add: example_inflight_simps)
qed


section \<open>Facts about the handlers\<close>

lemma settle_settled: "ps p = Some x \<Longrightarrow> x \<noteq> Pending \<Longrightarrow> settle q v ps p = Some x"
  by (cases "q = p") (auto simp: settle_def split: option.splits promise_state.splits)

lemma response_settled:
  "promises s p = Some x \<Longrightarrow> x \<noteq> Pending \<Longrightarrow> promises (handle_response s d) p = Some x"
  by (simp add: handle_response_def Let_def settle_settled split: option.splits)

lemma reply_promises: "promises (send_reply s conn f tx) = promises s"
  by (simp add: send_reply_def emit_def Let_def split: option.splits)

lemma message_settled:
  "promises s p = Some x \<Longrightarrow> x \<noteq> Pending \<Longrightarrow> promises (ws_message s conn parsed now tx) p = Some x"
  by (simp add: ws_message_def dispatch_def Let_def emit_def reply_promises response_settled split: option.splits)

lemma timeout_settled:
  "promises s p = Some x \<Longrightarrow> x \<noteq> Pending \<Longrightarrow> promises (timeout_fires s t) p = Some x"
  by (simp add: timeout_fires_def settle_settled split: option.splits prod.splits)

lemma message_response:
  "currentClient s = Some c \<Longrightarrow> client_id c = conn \<Longrightarrow> get_prop d ''type'' = Some (JStr ''response'') \<Longrightarrow>
   ws_message s conn (Some d) now tx = handle_response s d"
  by (cases d) (simp_all add: ws_message_def dispatch_def)

lemma message_response_miss:
  "get_prop d ''type'' = Some (JStr ''response'') \<Longrightarrow> get_prop d ''requestId'' = Some (JStr r) \<Longrightarrow>
   pendingRequests s r = None \<Longrightarrow> ws_message s conn (Some d) now tx = s"
  using handle_response_miss[of d r s]
  by (cases d) (simp_all add: ws_message_def dispatch_def split: option.splits)

lemma message_client: "currentClient (ws_message s conn parsed now tx) = None \<longleftrightarrow> currentClient s = None"
  by (simp add: ws_message_def dispatch_def handle_response_def emit_def send_reply_def Let_def split: option.splits)

lemma response_frame_props:
  "get_prop (response_frame r v) ''type'' = Some (JStr ''response'')"
  "get_prop (response_frame r v) ''requestId'' = Some (JStr r)"
  "get_prop (response_frame r v) ''payload'' = Some v"
  by (simp_all add: response_frame_def)

lemma response_client: "currentClient (handle_response s d) = currentClient s"
  by (simp add: handle_response_def Let_def split: option.splits)

lemma response_other:
  "get_prop d ''requestId'' = Some (JStr r) \<Longrightarrow> r' \<noteq> r \<Longrightarrow>
   pendingRequests (handle_response s d) r' = pendingRequests s r'"
  by (simp add: handle_response_def Let_def split: option.splits)

lemma response_none:
  "pendingRequests s r' = None \<Longrightarrow> pendingRequests (handle_response s d) r' = None"
  by (simp add: handle_response_def Let_def split: option.splits)

subsection \<open>Delivering a batch of responses\<close>

lemma deliver_step:
  "currentClient s = Some c \<Longrightarrow> client_id c = conn \<Longrightarrow>
   deliver s conn ((r, v) # rs) = deliver (handle_response s (response_frame r v)) conn rs"
  using message_response[of s c conn "response_frame r v" "[]" None]
  by (simp add: response_frame_props)

lemma deliver_inv: "table_inv s \<Longrightarrow> table_inv (deliver s conn rs)"
  by (induction rs arbitrary: s) (auto simp: inv_message)

lemma deliver_settled:
  "promises s p = Some x \<Longrightarrow> x \<noteq> Pending \<Longrightarrow> promises (deliver s conn rs) p = Some x"
  by (induction rs arbitrary: s) (auto simp: message_settled)

lemma message_none: "pendingRequests s r = None \<Longrightarrow> pendingRequests (ws_message s conn parsed now tx) r = None"
  by (simp add: ws_message_def dispatch_def Let_def emit_def send_reply_def response_none split: option.splits)

lemma deliver_none: "pendingRequests s r = None \<Longrightarrow> pendingRequests (deliver s conn rs) r = None"
  by (induction rs arbitrary: s) (auto simp: message_none)

lemma deliver_other:
  "currentClient s = Some c \<Longrightarrow> client_id c = conn \<Longrightarrow> r \<notin> fst ` set rs \<Longrightarrow> pendingRequests (deliver s conn rs) r = pendingRequests s r"
proof (induction rs arbitrary: s)
  case Nil then show ?case by simp
next
  case (Cons a rs)
  obtain r0 v0 where a: "a = (r0, v0)" by (cases a)
  with Cons.prems have ne: "r \<noteq> r0" and nin: "r \<notin> fst ` set rs" by auto
  let ?s1 = "handle_response s (response_frame r0 v0)"
  have "pendingRequests (deliver ?s1 conn rs) r = pendingRequests ?s1 r"
    using Cons.prems(1,2) nin by (intro Cons.IH) (simp_all add: response_client)
  also have "\<dots> = pendingRequests s r"
    using ne by (simp add: response_other response_frame_props)
  finally show ?case using deliver_step[OF Cons.prems(1,2), of r0 v0 rs] by (simp add: a)
qed

lemma deliver_hit:
  assumes "table_inv s" "currentClient s = Some c" "client_id c = conn" "distinct (map fst rs)"
    "(r, v) \<in> set rs" "pendingRequests s r = Some e" "r \<noteq> []"
  shows "promises (deliver s conn rs) (promise e) = Some (Resolved (Some v)) \<and> pendingRequests (deliver s conn rs) r = None"
  using assms
proof (induction rs arbitrary: s)
  case Nil then show ?case by simp
next
  case (Cons a rs)
  obtain r0 v0 where a: "a = (r0, v0)" by (cases a)
  let ?d = "response_frame r0 v0"
  let ?s1 = "handle_response s ?d"
  have step: "deliver s conn (a # rs) = deliver ?s1 conn rs"
    using deliver_step[OF Cons.prems(2,3), of r0 v0 rs] by (simp add: a)
  show ?case
  proof (cases "r0 = r")
    case True
    with Cons.prems(4,5) a have v0: "v0 = v" by (auto simp: image_iff)
    have hit: "?s1 = s\<lparr>timers := (timers s)(timeout e := None),
       promises := settle (promise e) (Resolved (get_prop ?d ''payload'')) (promises s),
       pendingRequests := (pendingRequests s)(r := None)\<rparr>"
      using Cons.prems(6,7) True by (intro handle_response_hit) (simp_all add: response_frame_props)
    have "promises s (promise e) = Some Pending" by (rule invD1[OF Cons.prems(1) Cons.prems(6)])
    then have "promises ?s1 (promise e) = Some (Resolved (Some v))" and "pendingRequests ?s1 r = None"
      unfolding hit by (simp_all add: settle_def response_frame_props v0)
    then show ?thesis
      unfolding step by (simp add: deliver_settled deliver_none)
  next
    case False
    have "promises (deliver ?s1 conn rs) (promise e) = Some (Resolved (Some v)) \<and> pendingRequests (deliver ?s1 conn rs) r = None"
    proof (rule Cons.IH)
      show "table_inv ?s1" by (rule inv_response[OF Cons.prems(1)])
      show "currentClient ?s1 = Some c" by (simp add: response_client Cons.prems(2))
      show "client_id c = conn" by fact
      show "distinct (map fst rs)" using Cons.prems(4) by simp
      show "(r, v) \<in> set rs" using Cons.prems(5) False a by auto
      show "pendingRequests ?s1 r = Some e" using False Cons.prems(6) by (simp add: response_other response_frame_props)
      show "r \<noteq> []" by fact
    qed
    then show ?thesis unfolding step .
  qed
qed

section \<open>Single events and runs\<close>

lemma close_table:
  "pendingRequests (ws_close s conn) = pendingRequests s"
  "promises (ws_close s conn) = promises s"
  "timers (ws_close s conn) = timers s"
  by (simp_all add: ws_close_def split: option.splits)

lemma open_table:
  "pendingRequests (ws_open s conn n1 n2) = pendingRequests s"
  "promises (ws_open s conn n1 n2) = promises s"
  "timers (ws_open s conn n1 n2) = timers s"
  by (simp_all add: ws_open_def emit_def Let_def split: option.splits)

lemma reachable_step: "reachable s \<Longrightarrow> fresh s ev \<Longrightarrow> reachable (step s ev)"
  by (cases ev) (auto intro: reachable.intros)

lemma reachable_run: "reachable s \<Longrightarrow> fresh_run s evs \<Longrightarrow> reachable (run s evs)"
  by (induction evs arbitrary: s) (auto simp: reachable_step)

lemma inv_step: "table_inv s \<Longrightarrow> fresh s ev \<Longrightarrow> table_inv (step s ev)"
  by (cases ev) (auto simp: inv_open inv_message inv_close inv_send inv_timeout)

lemma reply_table:
  "pendingRequests (send_reply s conn f tx) = pendingRequests s"
  "promises (send_reply s conn f tx) = promises s"
  "timers (send_reply s conn f tx) = timers s"
  by (simp_all add: send_reply_def emit_def Let_def split: option.splits)

lemma emit_table:
  "pendingRequests (emit e s) = pendingRequests s"
  "promises (emit e s) = promises s"
  "timers (emit e s) = timers s"
  by (simp_all add: emit_def)

lemma message_cases:
  obtains (same) "pendingRequests (ws_message s conn parsed now tx) = pendingRequests s"
      "promises (ws_message s conn parsed now tx) = promises s"
      "timers (ws_message s conn parsed now tx) = timers s"
  | (hit) c d r e where "parsed = Some d" "currentClient s = Some c" "client_id c = conn"
      "get_prop d ''type'' = Some (JStr ''response'')" "get_prop d ''requestId'' = Some (JStr r)"
      "r \<noteq> []" "pendingRequests s r = Some e"
      "ws_message s conn parsed now tx =
         s\<lparr>timers := (timers s)(timeout e := None),
           promises := settle (promise e) (Resolved (get_prop d ''payload'')) (promises s),
           pendingRequests := (pendingRequests s)(r := None)\<rparr>"
proof (cases "\<exists>c d. parsed = Some d \<and> currentClient s = Some c \<and> client_id c = conn
                 \<and> get_prop d ''type'' = Some (JStr ''response'')")
  case False
  have "pendingRequests (ws_message s conn parsed now tx) = pendingRequests s
      \<and> promises (ws_message s conn parsed now tx) = promises s
      \<and> timers (ws_message s conn parsed now tx) = timers s"
    using False
    by (auto simp: ws_message_def dispatch_def Let_def reply_table emit_table split: option.splits)
  then show ?thesis using same by blast
next
  case True
  then obtain c d where p: "parsed = Some d" "currentClient s = Some c" "client_id c = conn"
    "get_prop d ''type'' = Some (JStr ''response'')" by blast
  have m: "ws_message s conn parsed now tx = handle_response s d"
    unfolding p(1) by (rule message_response[OF p(2,3,4)])
  show ?thesis
  proof (rule handle_response_cases[of s d])
    assume "handle_response s d = s"
    then show ?thesis using same by (simp add: m)
  next
    fix r e
    assume h: "get_prop d ''requestId'' = Some (JStr r)" "r \<noteq> []" "pendingRequests s r = Some e"
    show ?thesis
      by (rule hit[OF p h]) (simp add: m handle_response_hit[OF h])
  qed
qed


lemma step_entry:
  assumes inv: "table_inv s" and fr: "fresh s ev" and e: "pendingRequests s r = Some e"
  shows "(pendingRequests (step s ev) r = Some e \<and> promises (step s ev) (promise e) = Some Pending)
       \<or> (ev = EvTimeout (timeout e) \<and> pendingRequests (step s ev) r = None
            \<and> promises (step s ev) (promise e) = Some (Rejected RequestTimeout))
       \<or> (\<exists>conn d now tx c. ev = EvMessage conn (Some d) now tx
            \<and> currentClient s = Some c \<and> client_id c = conn
            \<and> get_prop d ''type'' = Some (JStr ''response'')
            \<and> get_prop d ''requestId'' = Some (JStr r)
            \<and> pendingRequests (step s ev) r = None
            \<and> promises (step s ev) (promise e) = Some (Resolved (get_prop d ''payload'')))"
proof -
  note pe = invD1[OF inv e]
  show ?thesis
  proof (cases ev)
    case (EvOpen conn n1 n2)
    then show ?thesis using e pe by (simp add: open_table)
  next
    case (EvClose conn)
    then show ?thesis using e pe by (simp add: close_table)
  next
    case (EvSend cmd ms rid tx)
    with fr have f: "pendingRequests s rid = None" by simp
    with e have ne: "rid \<noteq> r" by auto
    from pe invD5[OF inv, of "promise e"] have np: "promise e \<noteq> nextPromise s" by auto
    have "pendingRequests (step s ev) r = Some e"
      using e ne by (simp add: EvSend send_projections split: option.splits)
    moreover have "promises (step s ev) (promise e) = Some Pending"
      using pe np by (simp add: EvSend send_projections)
    ultimately show ?thesis by simp
  next
    case (EvTimeout t)
    show ?thesis
    proof (cases "timers s t")
      case None
      then show ?thesis using e pe by (simp add: EvTimeout timeout_fires_def)
    next
      case (Some x)
      obtain ms r' p' where x: "x = (ms, r', p')" by (cases x)
      from invD2[OF inv] Some x have e': "pendingRequests s r' = Some \<lparr>promise = p', timeout = t\<rparr>"
        by simp
      have st: "step s ev = s\<lparr>timers := (timers s)(t := None),
            pendingRequests := (pendingRequests s)(r' := None),
            promises := settle p' (Rejected RequestTimeout) (promises s)\<rparr>"
        by (simp add: EvTimeout timeout_fires_def Some x)
      show ?thesis
      proof (cases "r' = r")
        case True
        with e e' have ee: "e = \<lparr>promise = p', timeout = t\<rparr>" by simp
        then have "ev = EvTimeout (timeout e)" by (simp add: EvTimeout)
        moreover have "pendingRequests (step s ev) r = None" by (simp add: st True)
        moreover have "promises (step s ev) (promise e) = Some (Rejected RequestTimeout)"
          using pe by (simp add: st ee settle_def)
        ultimately show ?thesis by simp
      next
        case False
        from invD4[OF inv e' e] False have "p' \<noteq> promise e" by auto
        then have "promises (step s ev) (promise e) = Some Pending"
          using pe by (simp add: st settle_def split: option.splits promise_state.splits)
        moreover have "pendingRequests (step s ev) r = Some e" using e False by (simp add: st)
        ultimately show ?thesis by simp
      qed
    qed
  next
    case (EvMessage conn parsed now tx)
    show ?thesis
    proof (rule message_cases[of s conn parsed now tx])
      assume "pendingRequests (ws_message s conn parsed now tx) = pendingRequests s"
        "promises (ws_message s conn parsed now tx) = promises s"
      then show ?thesis using e pe by (simp add: EvMessage)
    next
      fix c d r' e'
      assume h: "parsed = Some d" "currentClient s = Some c" "client_id c = conn"
        "get_prop d ''type'' = Some (JStr ''response'')" "get_prop d ''requestId'' = Some (JStr r')"
        "r' \<noteq> []" "pendingRequests s r' = Some e'"
        and st: "ws_message s conn parsed now tx =
         s\<lparr>timers := (timers s)(timeout e' := None),
           promises := settle (promise e') (Resolved (get_prop d ''payload'')) (promises s),
           pendingRequests := (pendingRequests s)(r' := None)\<rparr>"
      show ?thesis
      proof (cases "r' = r")
        case True
        with e h(7) have ee: "e' = e" by simp
        have "pendingRequests (step s ev) r = None" by (simp add: EvMessage st True)
        moreover have "promises (step s ev) (promise e) = Some (Resolved (get_prop d ''payload''))"
          using pe by (simp add: EvMessage st ee settle_def)
        ultimately have "ev = EvMessage conn (Some d) now tx
            \<and> currentClient s = Some c \<and> client_id c = conn
            \<and> get_prop d ''type'' = Some (JStr ''response'')
            \<and> get_prop d ''requestId'' = Some (JStr r)
            \<and> pendingRequests (step s ev) r = None
            \<and> promises (step s ev) (promise e) = Some (Resolved (get_prop d ''payload''))"
          using h True by (simp add: EvMessage)
        then show ?thesis by blast
      next
        case False
        from invD4[OF inv h(7) e] False have "promise e' \<noteq> promise e" by auto
        then have "promises (step s ev) (promise e) = Some Pending"
          using pe by (simp add: EvMessage st settle_def split: option.splits promise_state.splits)
        moreover have "pendingRequests (step s ev) r = Some e" using e False by (simp add: EvMessage st)
        ultimately show ?thesis by simp
      qed
    qed
  qed
qed

lemma step_settled:
  assumes inv: "table_inv s" and p: "promises s p = Some x" and x: "x \<noteq> Pending"
  shows "promises (step s ev) p = Some x"
proof (cases ev)
  case (EvSend cmd ms rid tx)
  from p invD5[OF inv, of p] have "p \<noteq> nextPromise s" by auto
  then show ?thesis using p by (simp add: EvSend send_projections)
qed (use p x in \<open>simp_all add: open_table close_table message_settled timeout_settled\<close>)

lemma tracked_step:
  assumes inv: "table_inv s" and fr: "fresh s ev" and tr: "tracked rid p t s seen"
  shows "tracked rid p t (step s ev) (seen @ [ev])"
proof -
  from tr consider
      (pending) "promises s p = Some Pending" "pendingRequests s rid = Some \<lparr>promise = p, timeout = t\<rparr>"
    | (resolved) v where "promises s p = Some (Resolved v)" "\<exists>ev \<in> set seen. answers ev rid v"
    | (rejected) "promises s p = Some (Rejected RequestTimeout)" "EvTimeout t \<in> set seen"
    unfolding tracked_def by blast
  then show ?thesis
  proof cases
    case pending
    from step_entry[OF inv fr pending(2)]
    consider "pendingRequests (step s ev) rid = Some \<lparr>promise = p, timeout = t\<rparr>"
        "promises (step s ev) p = Some Pending"
      | "ev = EvTimeout t" "promises (step s ev) p = Some (Rejected RequestTimeout)"
      | conn d now tx where "ev = EvMessage conn (Some d) now tx"
          "get_prop d ''type'' = Some (JStr ''response'')"
          "get_prop d ''requestId'' = Some (JStr rid)"
          "promises (step s ev) p = Some (Resolved (get_prop d ''payload''))"
      by auto
    then show ?thesis
    proof cases
      case 1
      then show ?thesis by (simp add: tracked_def)
    next
      case 2
      then show ?thesis by (simp add: tracked_def)
    next
      case 3
      then have "answers ev rid (get_prop d ''payload'')" by simp
      with 3(4) show ?thesis unfolding tracked_def by auto
    qed
  next
    case resolved
    from step_settled[OF inv resolved(1)] have "promises (step s ev) p = Some (Resolved v)" by simp
    with resolved(2) show ?thesis unfolding tracked_def by auto
  next
    case rejected
    from step_settled[OF inv rejected(1)] have "promises (step s ev) p = Some (Rejected RequestTimeout)" by simp
    with rejected(2) show ?thesis unfolding tracked_def by auto
  qed
qed

lemma tracked_run:
  assumes "table_inv s" and "fresh_run s evs" and "tracked rid p t s seen"
  shows "tracked rid p t (run s evs) (seen @ evs)"
  using assms
proof (induction evs arbitrary: s seen)
  case Nil
  then show ?case by simp
next
  case (Cons ev evs)
  from Cons.prems have f: "fresh s ev" and fr: "fresh_run (step s ev) evs" by simp_all
  have "tracked rid p t (run (step s ev) evs) ((seen @ [ev]) @ evs)"
    by (rule Cons.IH[OF inv_step[OF Cons.prems(1) f] fr tracked_step[OF Cons.prems(1) f Cons.prems(3)]])
  then show ?case by simp
qed

lemma send_tracked:
  assumes c: "currentClient s = Some c"
  shows "tracked rid (fst (sendCommandToThunderbird s cmd ms rid None)) (nextTimer s)
           (snd (sendCommandToThunderbird s cmd ms rid None)) []"
  by (simp add: tracked_def send_projections c)

section \<open>Correlation by request identifier\<close>

text \<open>
  Claim C1. A command is sent over the current connection with a fresh, non-empty request
  identifier \<open>rid\<close>; the caller holds the returned promise \<open>p\<close>. After any events
  whatever (other commands sent, responses for other requests or for this one arriving in
  any order from any connection, connections opening and closing, timers firing), the
  caller's promise is in one of three conditions: still pending, with the entry of
  \<open>rid\<close> in the table pointing at it; resolved, and then with the payload of a response
  frame that carried \<open>rid\<close>; or rejected by its deadline timer. While it is pending,
  any batch of response frames with distinct identifiers arriving from the current
  connection, in any order, that contains a frame \<open>(rid, v)\<close> resolves the caller's
  promise with exactly \<open>v\<close> and removes the entry. No entry other than that of \<open>rid\<close>
  ever points at the caller's promise, and once the promise is settled none does.
\<close>

theorem caller_resolves_with_own_response:
  assumes "reachable s" and "currentClient s = Some c"
    and "pendingRequests s rid = None" and "rid \<noteq> []"
    and "fresh_run (snd (sendCommandToThunderbird s cmd ms rid None)) evs"
  shows "let p = fst (sendCommandToThunderbird s cmd ms rid None);
             s' = run (snd (sendCommandToThunderbird s cmd ms rid None)) evs
         in (promises s' p = Some Pending
               \<and> pendingRequests s' rid = Some \<lparr>promise = p, timeout = nextTimer s\<rparr>
             \<or> (\<exists>v. promises s' p = Some (Resolved v) \<and> (\<exists>ev \<in> set evs. answers ev rid v))
             \<or> promises s' p = Some (Rejected RequestTimeout) \<and> EvTimeout (nextTimer s) \<in> set evs)
          \<and> (\<forall>c' rs v. promises s' p = Some Pending \<and> currentClient s' = Some c'
                 \<and> distinct (map fst rs) \<and> (rid, v) \<in> set rs \<longrightarrow>
               promises (deliver s' (client_id c') rs) p = Some (Resolved (Some v))
               \<and> pendingRequests (deliver s' (client_id c') rs) rid = None)
          \<and> (\<forall>r e. pendingRequests s' r = Some e \<and> promise e = p \<longrightarrow>
               r = rid \<and> promises s' p = Some Pending)"
proof -
  let ?p = "fst (sendCommandToThunderbird s cmd ms rid None)"
  let ?s1 = "snd (sendCommandToThunderbird s cmd ms rid None)"
  let ?s' = "run ?s1 evs"
  let ?t = "nextTimer s"
  note inv = reachable_inv[OF assms(1)]
  have inv1: "table_inv ?s1" by (rule inv_send[OF inv assms(3)])
  have r1: "reachable ?s1" by (rule r_send[OF assms(1,3)])
  have inv': "table_inv ?s'" by (rule reachable_inv[OF reachable_run[OF r1 assms(5)]])
  from tracked_run[OF inv1 assms(5) send_tracked[OF assms(2)]]
  have tr: "tracked rid ?p ?t ?s' evs" by simp
  then have A: "promises ?s' ?p = Some Pending
               \<and> pendingRequests ?s' rid = Some \<lparr>promise = ?p, timeout = ?t\<rparr>
             \<or> (\<exists>v. promises ?s' ?p = Some (Resolved v) \<and> (\<exists>ev \<in> set evs. answers ev rid v))
             \<or> promises ?s' ?p = Some (Rejected RequestTimeout) \<and> EvTimeout ?t \<in> set evs"
    unfolding tracked_def by blast
  have ent: "pendingRequests ?s' rid = Some \<lparr>promise = ?p, timeout = ?t\<rparr>"
    if "promises ?s' ?p = Some Pending"
    using A that by auto
  have B: "promises (deliver ?s' (client_id c') rs) ?p = Some (Resolved (Some v))
               \<and> pendingRequests (deliver ?s' (client_id c') rs) rid = None"
    if h: "promises ?s' ?p = Some Pending \<and> currentClient ?s' = Some c'
                 \<and> distinct (map fst rs) \<and> (rid, v) \<in> set rs" for c' rs v
  proof -
    from h have cur: "currentClient ?s' = Some c'" and d: "distinct (map fst rs)"
      and m: "(rid, v) \<in> set rs" and pp: "promises ?s' ?p = Some Pending" by simp_all
    from deliver_hit[OF inv' cur refl d m ent[OF pp] assms(4)] show ?thesis by simp
  qed
  have C: "r = rid \<and> promises ?s' ?p = Some Pending"
    if h: "pendingRequests ?s' r = Some e \<and> promise e = ?p" for r e
  proof -
    from h have e: "pendingRequests ?s' r = Some e" and pe: "promise e = ?p" by simp_all
    from invD1[OF inv' e] pe have pp: "promises ?s' ?p = Some Pending" by simp
    from invD4[OF inv' e ent[OF pp]] pe have "r = rid" by simp
    with pp show ?thesis by simp
  qed
  show ?thesis
    unfolding Let_def
    apply (intro conjI allI impI)
    subgoal by (rule A)
    subgoal for c' rs v using B[of c' rs v] by simp
    subgoal for c' rs v using B[of c' rs v] by simp
    subgoal for r e using C[of r e] by simp
    subgoal for r e using C[of r e] by simp
    done
qed


lemma run_example:
  "run (snd (sendCommandToThunderbird example_connected example_cmd default_timeout ''r1'' None))
     [EvSend example_cmd default_timeout ''r2'' None] = example_two_inflight"
  by (simp add: example_two_inflight_def example_inflight_def)

text \<open>
  Two commands \<open>r1\<close>, \<open>r2\<close> are sent and answered in reverse order: the caller of
  \<open>r1\<close>, who holds promise 0, gets the payload of the frame for \<open>r1\<close>.
\<close>

theorem caller_resolves_with_own_response_witness:
  "reachable example_connected
   \<and> currentClient example_connected = Some \<lparr>client_id = ''w1'', addonId = None, connectedAt = ''t0''\<rparr>
   \<and> pendingRequests example_connected ''r1'' = None
   \<and> ''r1'' \<noteq> []
   \<and> fresh_run (snd (sendCommandToThunderbird example_connected example_cmd default_timeout ''r1'' None))
        [EvSend example_cmd default_timeout ''r2'' None]
   \<and> fst (sendCommandToThunderbird example_connected example_cmd default_timeout ''r1'' None) = 0
   \<and> promises (deliver example_two_inflight ''w1'' [(''r2'', JStr ''second''), (''r1'', JStr ''first'')]) 0
        = Some (Resolved (Some (JStr ''first'')))
   \<and> pendingRequests (deliver example_two_inflight ''w1'' [(''r2'', JStr ''second''), (''r1'', JStr ''first'')]) ''r1''
        = None"
proof -
  let ?rs = "[(''r2'', JStr ''second''), (''r1'', JStr ''first'')]"
  let ?c = "\<lparr>client_id = ''w1'', addonId = None, connectedAt = ''t0''\<rparr>"
  have f: "pendingRequests example_connected ''r1'' = None"
    by (simp add: example_connected_simps)
  have n: "''r1'' \<noteq> []" by simp
  have fr: "fresh_run (snd (sendCommandToThunderbird example_connected example_cmd default_timeout ''r1'' None))
        [EvSend example_cmd default_timeout ''r2'' None]"
    by (simp add: send_projections example_connected_simps)
  have p: "fst (sendCommandToThunderbird example_connected example_cmd default_timeout ''r1'' None) = 0"
    by (simp add: send_projections example_connected_simps)
  have pend: "promises example_two_inflight 0 = Some Pending"
    and cur: "currentClient example_two_inflight = Some ?c"
    by (simp_all add: example_two_inflight_simps)
  have d: "distinct (map fst ?rs)" and m: "(''r1'', JStr ''first'') \<in> set ?rs" by simp_all
  note t = caller_resolves_with_own_response[OF example_reachable(1) example_connected_simps(1) f n fr,
      unfolded Let_def run_example p]
  from conjunct1[OF conjunct2[OF t], rule_format, of ?c ?rs "JStr ''first''"] pend cur d m
  have "promises (deliver example_two_inflight ''w1'' ?rs) 0 = Some (Resolved (Some (JStr ''first'')))
      \<and> pendingRequests (deliver example_two_inflight ''w1'' ?rs) ''r1'' = None"
    by simp
  then show ?thesis
    using example_reachable(1) example_connected_simps(1) f fr p by simp
qed


section \<open>Sending without a connection\<close>

text \<open>
  Claim C2. When no connection is current, \<open>sendCommandToThunderbird\<close> returns a
  promise that is already rejected with the "no client connected" error; it makes no
  \<open>ws.send\<close> or any other call to the outside (the effects are unchanged), schedules no
  timer and leaves the correlation table as it was.
\<close>

theorem send_without_client_rejects:
  assumes "currentClient s = None"
  shows "promises (snd (sendCommandToThunderbird s cmd ms rid tx)) (fst (sendCommandToThunderbird s cmd ms rid tx))
           = Some (Rejected NoClientConnected)
       \<and> effects (snd (sendCommandToThunderbird s cmd ms rid tx)) = effects s
       \<and> pendingRequests (snd (sendCommandToThunderbird s cmd ms rid tx)) = pendingRequests s
       \<and> timers (snd (sendCommandToThunderbird s cmd ms rid tx)) = timers s"
  using assms by (simp add: sendCommandToThunderbird_def Let_def settle_def)

theorem send_without_client_rejects_witness:
  "currentClient bridge_init = None
   \<and> promises (snd (sendCommandToThunderbird bridge_init example_cmd default_timeout ''r1'' None)) 0
         = Some (Rejected NoClientConnected)
   \<and> effects (snd (sendCommandToThunderbird bridge_init example_cmd default_timeout ''r1'' None)) = []
   \<and> pendingRequests (snd (sendCommandToThunderbird bridge_init example_cmd default_timeout ''r1'' None)) = Map.empty"
proof -
  have h: "currentClient bridge_init = None" by (simp add: bridge_init_def)
  have f: "fst (sendCommandToThunderbird bridge_init example_cmd default_timeout ''r1'' None) = 0"
    by (simp add: send_projections bridge_init_def)
  from send_without_client_rejects[OF h, of example_cmd default_timeout "''r1''" None] h f show ?thesis
    by (simp add: bridge_init_def)
qed

section \<open>First resolution wins\<close>

text \<open>
  Claim C3. Let \<open>d\<close> be a response frame for request \<open>r\<close>, in a reachable state.
  If the deadline timer of \<open>r\<close> fires, the entry of \<open>r\<close> is removed and the caller is
  rejected with the timeout error, and the frame \<open>d\<close> arriving afterwards changes nothing
  at all. In general a response whose identifier has no entry (removed by the deadline or
  by an earlier response) leaves the whole state unchanged, and a promise that is settled
  keeps its outcome under every later message and every later timer.
\<close>

theorem late_response_is_dropped:
  assumes "reachable s"
    and "get_prop d ''type'' = Some (JStr ''response'')"
    and "get_prop d ''requestId'' = Some (JStr r)"
  shows "(timers s t = Some (ms, r, p) \<longrightarrow>
            pendingRequests (timeout_fires s t) r = None
          \<and> promises (timeout_fires s t) p = Some (Rejected RequestTimeout)
          \<and> ws_message (timeout_fires s t) conn (Some d) now tx = timeout_fires s t)
       \<and> (pendingRequests s r = None \<longrightarrow> ws_message s conn (Some d) now tx = s)
       \<and> (promises s q = Some x \<and> x \<noteq> Pending \<longrightarrow>
            promises (ws_message s conn parsed now tx) q = Some x
          \<and> promises (timeout_fires s t) q = Some x)"
proof (intro conjI impI)
  assume t: "timers s t = Some (ms, r, p)"
  show gone: "pendingRequests (timeout_fires s t) r = None"
    by (simp add: timeout_fires_def t)
  from invD2[OF reachable_inv[OF assms(1)] t] have "pendingRequests s r = Some \<lparr>promise = p, timeout = t\<rparr>" .
  from invD1[OF reachable_inv[OF assms(1)] this] have "promises s p = Some Pending" by simp
  then show "promises (timeout_fires s t) p = Some (Rejected RequestTimeout)"
    by (simp add: timeout_fires_def t settle_def)
  show "ws_message (timeout_fires s t) conn (Some d) now tx = timeout_fires s t"
    by (rule message_response_miss[OF assms(2,3) gone])
next
  assume "pendingRequests s r = None"
  then show "ws_message s conn (Some d) now tx = s"
    by (rule message_response_miss[OF assms(2,3)])
next
  assume "promises s q = Some x \<and> x \<noteq> Pending"
  then show "promises (ws_message s conn parsed now tx) q = Some x"
    and "promises (timeout_fires s t) q = Some x"
    by (simp_all add: message_settled timeout_settled)
qed

theorem late_response_is_dropped_witness:
  "reachable example_inflight
   \<and> get_prop (response_frame ''r1'' (JStr ''late'')) ''type'' = Some (JStr ''response'')
   \<and> get_prop (response_frame ''r1'' (JStr ''late'')) ''requestId'' = Some (JStr ''r1'')
   \<and> timers example_inflight 0 = Some (default_timeout, ''r1'', 0)
   \<and> pendingRequests (timeout_fires example_inflight 0) ''r1'' = None
   \<and> promises (timeout_fires example_inflight 0) 0 = Some (Rejected RequestTimeout)
   \<and> promises (ws_message (timeout_fires example_inflight 0) ''w1'' (Some (response_frame ''r1'' (JStr ''late''))) [] None) 0
        = Some (Rejected RequestTimeout)"
proof -
  let ?d = "response_frame ''r1'' (JStr ''late'')"
  have t: "timers example_inflight 0 = Some (default_timeout, ''r1'', 0)"
    by (simp add: example_inflight_simps)
  from late_response_is_dropped[OF example_reachable(2) response_frame_props(1)[of "''r1''" "JStr ''late''"]
          response_frame_props(2)[of "''r1''" "JStr ''late''"],
        where t = 0 and ms = default_timeout and p = 0 and conn = "''w1''" and now = "[]" and tx = None]
  have "pendingRequests (timeout_fires example_inflight 0) ''r1'' = None
     \<and> promises (timeout_fires example_inflight 0) 0 = Some (Rejected RequestTimeout)
     \<and> ws_message (timeout_fires example_inflight 0) ''w1'' (Some ?d) [] None = timeout_fires example_inflight 0"
    using t by blast
  then show ?thesis
    using example_reachable(2) t by (simp add: response_frame_props)
qed

section \<open>One current connection\<close>

text \<open>
  Claim C4. The registry holds at most one connection (\<open>currentClient\<close> is an option).
  Accepting a connection makes it the current one; if another was current, that one is
  first closed with code 1000 and the reason "New client connected", before the welcome
  frame goes to the new one. A close event of any connection other than the current one,
  in particular of the superseded one, leaves the state unchanged.
\<close>

theorem single_current_connection:
  "currentClient (ws_open s new now1 now2) = Some \<lparr>client_id = new, addonId = None, connectedAt = now1\<rparr>
   \<and> (currentClient s = Some c \<longrightarrow>
        effects (ws_open s new now1 now2) =
          effects s @ [WsClose (client_id c) 1000 ''New client connected'', WsSend new (welcome_frame new now2)])
   \<and> (old \<noteq> new \<longrightarrow> ws_close (ws_open s new now1 now2) old = ws_open s new now1 now2)
   \<and> (currentClient s = Some c \<and> client_id c \<noteq> old \<longrightarrow> ws_close s old = s)"
  by (simp add: ws_open_def ws_close_def emit_def Let_def split: option.splits)

theorem single_current_connection_witness:
  "currentClient example_connected = Some \<lparr>client_id = ''w1'', addonId = None, connectedAt = ''t0''\<rparr>
   \<and> ''w1'' \<noteq> ''w2''
   \<and> currentClient (ws_open example_connected ''w2'' ''t1'' ''t2'')
        = Some \<lparr>client_id = ''w2'', addonId = None, connectedAt = ''t1''\<rparr>
   \<and> effects (ws_open example_connected ''w2'' ''t1'' ''t2'') =
        effects example_connected @ [WsClose ''w1'' 1000 ''New client connected'', WsSend ''w2'' (welcome_frame ''w2'' ''t2'')]
   \<and> currentClient (ws_close (ws_open example_connected ''w2'' ''t1'' ''t2'') ''w1'')
        = Some \<lparr>client_id = ''w2'', addonId = None, connectedAt = ''t1''\<rparr>"
  using single_current_connection[of example_connected "''w2''" "''t1''" "''t2''" "\<lparr>client_id = ''w1'', addonId = None, connectedAt = ''t0''\<rparr>" "''w1''"]
  by (simp add: example_connected_simps)

section \<open>Heartbeats\<close>

text \<open>
  Claim C8. A heartbeat frame from the current connection is answered on that connection
  with exactly one frame, of type \<open>heartbeat_ack\<close>, whose payload holds as \<open>timestamp\<close>
  the clock reading \<open>now\<close> taken while the frame is handled (followed by a log line only
  if that \<open>ws.send\<close> throws); the correlation table, the promises and the deadline
  timers are exactly as before.
\<close>

theorem heartbeat_leaves_table_unchanged:
  assumes "currentClient s = Some c" and "client_id c = conn"
    and "get_prop d ''type'' = Some (JStr ''heartbeat'')"
  shows "effects (ws_message s conn (Some d) now tx) =
           effects s @ WsSend conn (JObj [(''type'', JStr ''heartbeat_ack''),
                                           (''payload'', JObj [(''timestamp'', JStr now)])])
             # (case tx of None \<Rightarrow> [] | Some err \<Rightarrow> [ConsoleError ''[!] Error processing message from client:''])
       \<and> pendingRequests (ws_message s conn (Some d) now tx) = pendingRequests s
       \<and> promises (ws_message s conn (Some d) now tx) = promises s
       \<and> timers (ws_message s conn (Some d) now tx) = timers s"
  using assms
  by (cases d; cases tx)
     (simp_all add: ws_message_def dispatch_def send_reply_def emit_def heartbeat_ack_frame_def Let_def)

theorem heartbeat_leaves_table_unchanged_witness:
  "currentClient example_inflight = Some \<lparr>client_id = ''w1'', addonId = None, connectedAt = ''t0''\<rparr>
   \<and> get_prop (JObj [(''type'', JStr ''heartbeat'')]) ''type'' = Some (JStr ''heartbeat'')
   \<and> effects (ws_message example_inflight ''w1'' (Some (JObj [(''type'', JStr ''heartbeat'')])) ''t9'' None) =
        effects example_inflight @
          [WsSend ''w1'' (JObj [(''type'', JStr ''heartbeat_ack''),
                                (''payload'', JObj [(''timestamp'', JStr ''t9'')])])]
   \<and> pendingRequests (ws_message example_inflight ''w1'' (Some (JObj [(''type'', JStr ''heartbeat'')])) ''t9'' None)
        = [''r1'' \<mapsto> \<lparr>promise = 0, timeout = 0\<rparr>]"
proof -
  have g: "get_prop (JObj [(''type'', JStr ''heartbeat'')]) ''type'' = Some (JStr ''heartbeat'')" by simp
  have c: "client_id \<lparr>client_id = ''w1'', addonId = None, connectedAt = ''t0''\<rparr> = ''w1''" by simp
  from heartbeat_leaves_table_unchanged[OF example_inflight_simps(1) c g, of "''t9''" None] g show ?thesis
    by (simp add: example_inflight_simps)
qed

section \<open>A transmission that throws\<close>

text \<open>
  Claim C10. If \<open>ws.send\<close> throws while a command is sent with a fresh request
  identifier, the promise is rejected with the thrown error, and the table and the
  scheduled timers are exactly as before the call: the entry just registered is removed and
  its deadline timer cancelled. The only trace is the attempted \<open>ws.send\<close> call.
\<close>

theorem send_failure_restores_table:
  assumes "reachable s" and "currentClient s = Some c" and "pendingRequests s rid = None"
  shows "promises (snd (sendCommandToThunderbird s cmd ms rid (Some err))) (fst (sendCommandToThunderbird s cmd ms rid (Some err)))
           = Some (Rejected err)
       \<and> pendingRequests (snd (sendCommandToThunderbird s cmd ms rid (Some err))) = pendingRequests s
       \<and> timers (snd (sendCommandToThunderbird s cmd ms rid (Some err))) = timers s
       \<and> effects (snd (sendCommandToThunderbird s cmd ms rid (Some err))) =
           effects s @ [WsSend (client_id c) (command_json (cmd\<lparr>requestId := Some rid\<rparr>))]"
proof -
  have "timers s (nextTimer s) = None"
    by (rule invD6[OF reachable_inv[OF assms(1)]]) simp
  then have "(timers s)(nextTimer s := None) = timers s" by (rule fun_upd_idem)
  moreover have "(pendingRequests s)(rid := None) = pendingRequests s" using assms(3) by (rule fun_upd_idem)
  moreover have "effects (snd (sendCommandToThunderbird s cmd ms rid (Some err))) =
           effects s @ [WsSend (client_id c) (command_json (cmd\<lparr>requestId := Some rid\<rparr>))]"
    by (simp add: sendCommandToThunderbird_def Let_def emit_def assms(2))
  ultimately show ?thesis
    by (simp add: send_projections assms(2))
qed

theorem send_failure_restores_table_witness:
  "reachable example_inflight
   \<and> currentClient example_inflight = Some \<lparr>client_id = ''w1'', addonId = None, connectedAt = ''t0''\<rparr>
   \<and> pendingRequests example_inflight ''r2'' = None
   \<and> promises (snd (sendCommandToThunderbird example_inflight example_cmd default_timeout ''r2'' (Some (Thrown ''closed'')))) 1
        = Some (Rejected (Thrown ''closed''))
   \<and> pendingRequests (snd (sendCommandToThunderbird example_inflight example_cmd default_timeout ''r2'' (Some (Thrown ''closed''))))
        = [''r1'' \<mapsto> \<lparr>promise = 0, timeout = 0\<rparr>]
   \<and> timers (snd (sendCommandToThunderbird example_inflight example_cmd default_timeout ''r2'' (Some (Thrown ''closed''))))
        = [0 \<mapsto> (default_timeout, ''r1'', 0)]"
proof -
  have f: "pendingRequests example_inflight ''r2'' = None" by (simp add: example_inflight_simps)
  have p: "fst (sendCommandToThunderbird example_inflight example_cmd default_timeout ''r2'' (Some (Thrown ''closed''))) = 1"
    by (simp add: send_projections example_inflight_simps)
  from send_failure_restores_table[OF example_reachable(2) example_inflight_simps(1) f, of example_cmd default_timeout "Thrown ''closed''"] p
  show ?thesis using example_reachable(2) f by (simp add: example_inflight_simps)
qed

section \<open>Connection loss and the requests in flight\<close>

text \<open>
  Claim C7 fails on the code. A command is in flight when its connection closes, or when a second connection takes
  over: the entry stays in the table and the caller's promise stays pending.
\<close>

theorem inflight_survives_connection_loss:
  "pendingRequests (ws_close example_inflight ''w1'') ''r1'' = Some \<lparr>promise = 0, timeout = 0\<rparr>
   \<and> promises (ws_close example_inflight ''w1'') 0 = Some Pending
   \<and> currentClient (ws_close example_inflight ''w1'') = None
   \<and> pendingRequests (ws_open example_inflight ''w2'' ''t1'' ''t1'') ''r1'' = Some \<lparr>promise = 0, timeout = 0\<rparr>
   \<and> promises (ws_open example_inflight ''w2'' ''t1'' ''t1'') 0 = Some Pending"
  by (simp add: close_table open_table example_inflight_simps ws_close_def)

text \<open>
  Claim C7, as the code has it. In every reachable state a promise is pending exactly when
  the table holds an entry for it: an entry is destroyed exactly when its request is
  fulfilled. Closing or superseding the connection changes neither the table nor the
  promises nor the deadline timers, so it fulfils nothing; every entry left behind still
  has its deadline timer scheduled, and when that fires the entry is removed and the caller
  is rejected with the timeout error. A matching response from the current connection
  removes the entry and resolves the caller with the frame's payload. And nothing else
  completes a request: under any single event (a command drawing a fresh identifier) an
  entry stays in the table with its promise pending, unless the event is the firing of
  the entry's own deadline timer, or the arrival from the current connection of a response
  frame carrying the entry's identifier.
\<close>

theorem pending_outlives_connection:
  assumes "reachable s"
  shows "(\<forall>p. promises s p = Some Pending \<longleftrightarrow> (\<exists>r e. pendingRequests s r = Some e \<and> promise e = p))
       \<and> pendingRequests (ws_close s conn) = pendingRequests s
       \<and> promises (ws_close s conn) = promises s
       \<and> timers (ws_close s conn) = timers s
       \<and> pendingRequests (ws_open s conn now1 now2) = pendingRequests s
       \<and> promises (ws_open s conn now1 now2) = promises s
       \<and> timers (ws_open s conn now1 now2) = timers s
       \<and> (\<forall>r e. pendingRequests s r = Some e \<longrightarrow>
             (\<exists>ms. timers s (timeout e) = Some (ms, r, promise e))
             \<and> pendingRequests (timeout_fires s (timeout e)) r = None
             \<and> promises (timeout_fires s (timeout e)) (promise e) = Some (Rejected RequestTimeout))
       \<and> (\<forall>r e c d. pendingRequests s r = Some e \<and> r \<noteq> [] \<and> currentClient s = Some c
               \<and> get_prop d ''type'' = Some (JStr ''response'')
               \<and> get_prop d ''requestId'' = Some (JStr r) \<longrightarrow>
             pendingRequests (ws_message s (client_id c) (Some d) now tx) r = None
             \<and> promises (ws_message s (client_id c) (Some d) now tx) (promise e)
                 = Some (Resolved (get_prop d ''payload'')))
       \<and> (\<forall>ev r e. fresh s ev \<and> pendingRequests s r = Some e \<longrightarrow>
             (pendingRequests (step s ev) r = Some e \<and> promises (step s ev) (promise e) = Some Pending)
           \<or> (ev = EvTimeout (timeout e) \<and> pendingRequests (step s ev) r = None
                \<and> promises (step s ev) (promise e) = Some (Rejected RequestTimeout))
           \<or> (\<exists>conn d now tx c. ev = EvMessage conn (Some d) now tx
                \<and> currentClient s = Some c \<and> client_id c = conn
                \<and> get_prop d ''type'' = Some (JStr ''response'')
                \<and> get_prop d ''requestId'' = Some (JStr r)
                \<and> pendingRequests (step s ev) r = None
                \<and> promises (step s ev) (promise e) = Some (Resolved (get_prop d ''payload''))))"
proof -
  note inv = reachable_inv[OF assms]
  have a: "promises s p = Some Pending \<longleftrightarrow> (\<exists>r e. pendingRequests s r = Some e \<and> promise e = p)" for p
    using invD1[OF inv] invD3[OF inv, of p] by blast
  have b: "(\<exists>ms. timers s (timeout e) = Some (ms, r, promise e))
             \<and> pendingRequests (timeout_fires s (timeout e)) r = None
             \<and> promises (timeout_fires s (timeout e)) (promise e) = Some (Rejected RequestTimeout)"
    if e: "pendingRequests s r = Some e" for r e
  proof -
    from invD1'[OF inv e] obtain ms where t: "timers s (timeout e) = Some (ms, r, promise e)" by blast
    from invD1[OF inv e] have "promises s (promise e) = Some Pending" .
    with t show ?thesis by (simp add: timeout_fires_def settle_def)
  qed
  have c: "pendingRequests (ws_message s (client_id c) (Some d) now tx) r = None
             \<and> promises (ws_message s (client_id c) (Some d) now tx) (promise e)
                 = Some (Resolved (get_prop d ''payload''))"
    if h: "pendingRequests s r = Some e \<and> r \<noteq> [] \<and> currentClient s = Some c
               \<and> get_prop d ''type'' = Some (JStr ''response'')
               \<and> get_prop d ''requestId'' = Some (JStr r)" for r e c d
  proof -
    from h have m: "ws_message s (client_id c) (Some d) now tx = handle_response s d"
      by (intro message_response[of s c]) simp_all
    from h have "handle_response s d =
        s\<lparr>timers := (timers s)(timeout e := None),
          promises := settle (promise e) (Resolved (get_prop d ''payload'')) (promises s),
          pendingRequests := (pendingRequests s)(r := None)\<rparr>"
      by (intro handle_response_hit) simp_all
    moreover from h invD1[OF inv, of r e] have "promises s (promise e) = Some Pending" by simp
    ultimately show ?thesis by (simp add: m settle_def)
  qed
  have d: "(pendingRequests (step s ev) r = Some e \<and> promises (step s ev) (promise e) = Some Pending)
           \<or> (ev = EvTimeout (timeout e) \<and> pendingRequests (step s ev) r = None
                \<and> promises (step s ev) (promise e) = Some (Rejected RequestTimeout))
           \<or> (\<exists>conn d now tx c. ev = EvMessage conn (Some d) now tx
                \<and> currentClient s = Some c \<and> client_id c = conn
                \<and> get_prop d ''type'' = Some (JStr ''response'')
                \<and> get_prop d ''requestId'' = Some (JStr r)
                \<and> pendingRequests (step s ev) r = None
                \<and> promises (step s ev) (promise e) = Some (Resolved (get_prop d ''payload'')))"
    if h: "fresh s ev \<and> pendingRequests s r = Some e" for ev r e
    using h by (intro step_entry[OF inv]) simp_all
  show ?thesis
    unfolding close_table open_table
    apply (intro conjI allI impI refl)
    subgoal for p by (rule a)
    subgoal for r e using b[of r e] by simp
    subgoal for r e using b[of r e] by simp
    subgoal for r e using b[of r e] by simp
    subgoal for r e c d using c[of r e c d] by simp
    subgoal for r e c d using c[of r e c d] by simp
    subgoal for ev r e by (rule d)
    done
qed

theorem pending_outlives_connection_witness:
  "reachable example_inflight
   \<and> promises example_inflight 0 = Some Pending
   \<and> pendingRequests example_inflight ''r1'' = Some \<lparr>promise = 0, timeout = 0\<rparr>
   \<and> pendingRequests (ws_close example_inflight ''w1'') = pendingRequests example_inflight
   \<and> promises (timeout_fires example_inflight 0) 0 = Some (Rejected RequestTimeout)"
proof -
  have e: "pendingRequests example_inflight ''r1'' = Some \<lparr>promise = 0, timeout = 0\<rparr>"
    by (simp add: example_inflight_simps)
  note t = pending_outlives_connection[OF example_reachable(2), of "''w1''" "''t1''" "''t1''" "[]" None]
  from t have "pendingRequests (ws_close example_inflight ''w1'') = pendingRequests example_inflight"
    by blast
  moreover from t e have "promises (timeout_fires example_inflight (timeout \<lparr>promise = 0, timeout = 0\<rparr>))
       (promise \<lparr>promise = 0, timeout = 0\<rparr>) = Some (Rejected RequestTimeout)"
    by blast
  ultimately show ?thesis
    using example_reachable(2) e by (simp add: example_inflight_simps)
qed

section \<open>The worker answers commands\<close>

lemma sendToCC_open:
  "ws w = Some k \<Longrightarrow> readyState w k = OPEN \<Longrightarrow> sent (fst (sendToCC w msg)) = sent w @ [(k, msg)]"
  by (simp add: sendToCC_def)

lemma sendToCC_not_open:
  "(\<forall>k. ws w = Some k \<longrightarrow> readyState w k \<noteq> OPEN) \<Longrightarrow> fst (sendToCC w msg) = w"
  by (simp add: sendToCC_def split: option.splits)

text \<open>
  Claim C5 fails on the code. A \<open>list_accounts\<close> command with a request identifier is received, and the connection
  closes before the executor has finished: the reply is dropped by \<open>sendToCC\<close>. The
  only frame the worker has ever sent is its registration.
\<close>

theorem reply_dropped_when_disconnected:
  "sent (handleCommand example_exec example_worker_closed example_command) =
     [(0, JObj [(''type'', JStr ''register''), (''addonId'', JStr ''addon''), (''timestamp'', JStr ''t0'')])]"
  by (simp add: handleCommand_def example_command_def example_exec_def example_worker_closed_def
      example_worker_open_def socket_closes_def socket_opens_def onclose_def onopen_def
      connectToCC_def worker_init_def sendToCC_def clear_heartbeat_def schedule_reconnect_def
      known_commands_def response_to_def opt_field_def Let_def)

text \<open>
  Claim C5, as the code has it. A command frame (its type is not one of the control types)
  that carries a truthy \<open>requestId\<close> is answered as follows. If the worker's socket is
  open when the reply is ready, exactly one frame is sent, a \<open>response\<close> echoing the
  \<open>requestId\<close>: with the executor's result for a known command type; when the
  executor throws a value other than \<open>null\<close> or \<open>undefined\<close>, with a failure payload
  \<open>success: false\<close> that carries the thrown value's \<open>message\<close> and \<open>stack\<close> as
  far as it has them (for an \<open>Error\<close>, its message and its stack); and with the
  "Unknown command type" payload for any other type. If the socket is not open then, the
  reply is dropped and the worker's state does not change.
\<close>

theorem worker_replies_once_when_connected:
  assumes ty: "\<not> is_control (get_prop cmd ''type'')"
    and rid: "get_prop cmd ''requestId'' = Some rid" "truthy rid"
  shows "(ws w = Some k \<and> readyState w k = OPEN \<longrightarrow>
            (\<forall>name res. get_prop cmd ''type'' = Some (JStr name) \<and> name \<in> set known_commands
                 \<and> exec name (get_prop cmd ''payload'') = Returned res \<longrightarrow>
               sent (handleCommand exec w cmd) =
                 sent w @ [(k, JObj [(''type'', JStr ''response''), (''requestId'', rid), (''payload'', res)])])
          \<and> (\<forall>name msg stack. get_prop cmd ''type'' = Some (JStr name) \<and> name \<in> set known_commands
                 \<and> exec name (get_prop cmd ''payload'') = Raised (ThrownValue msg stack) \<longrightarrow>
               sent (handleCommand exec w cmd) =
                 sent w @ [(k, JObj [(''type'', JStr ''response''), (''requestId'', rid),
                                     (''payload'', JObj ([(''success'', JBool False)]
                                                         @ opt_field ''error'' msg
                                                         @ opt_field ''stack'' stack))])])
          \<and> (\<forall>name m st. get_prop cmd ''type'' = Some (JStr name) \<and> name \<in> set known_commands
                 \<and> exec name (get_prop cmd ''payload'') = Raised (ThrownValue (Some (JStr m)) (Some (JStr st))) \<longrightarrow>
               sent (handleCommand exec w cmd) =
                 sent w @ [(k, JObj [(''type'', JStr ''response''), (''requestId'', rid),
                                     (''payload'', JObj [(''success'', JBool False), (''error'', JStr m),
                                                         (''stack'', JStr st)])])])
          \<and> (\<not> is_known (get_prop cmd ''type'') \<longrightarrow>
               sent (handleCommand exec w cmd) =
                 sent w @ [(k, JObj [(''type'', JStr ''response''), (''requestId'', rid),
                                     (''payload'', JObj ([(''success'', JBool False),
                                                          (''error'', JStr ''Unknown command type'')]
                                                         @ opt_field ''commandType'' (get_prop cmd ''type'')))])]))
       \<and> ((\<forall>k. ws w = Some k \<longrightarrow> readyState w k \<noteq> OPEN) \<longrightarrow> handleCommand exec w cmd = w)"
proof -
  from rid have nn: "cmd \<noteq> JNull" by auto
  from ty have c: "get_prop cmd ''type'' \<noteq> Some (JStr ''welcome'')"
      "get_prop cmd ''type'' \<noteq> Some (JStr ''registered'')"
      "get_prop cmd ''type'' \<noteq> Some (JStr ''heartbeat_ack'')"
    by (auto simp: is_control_def)
  have tr: "js_truthy (get_prop cmd ''requestId'')" using rid by simp
  have closed: "handleCommand exec w cmd = w" if "\<forall>k. ws w = Some k \<longrightarrow> readyState w k \<noteq> OPEN"
    using nn c tr sendToCC_not_open[OF that]
    by (simp add: handleCommand_def Let_def split: option.splits exec_result.splits thrown.splits)
  have opn: "sent (handleCommand exec w cmd) =
      sent w @ [(k, response_to (Some rid)
        (case (case as_string (get_prop cmd ''type'') of
                 None \<Rightarrow> Returned (unknown_result (get_prop cmd ''type''))
               | Some name \<Rightarrow> if name \<in> set known_commands then exec name (get_prop cmd ''payload'')
                              else Returned (unknown_result (get_prop cmd ''type''))) of
           Returned res \<Rightarrow> res | Raised err \<Rightarrow> error_result msg stack))]"
    if o: "ws w = Some k" "readyState w k = OPEN"
      and nz: "\<forall>name. as_string (get_prop cmd ''type'') = Some name \<and> name \<in> set known_commands \<longrightarrow>
                 exec name (get_prop cmd ''payload'') \<noteq> Raised ThrownNullish
                 \<and> (\<forall>a b. exec name (get_prop cmd ''payload'') = Raised (ThrownValue a b) \<longrightarrow> a = msg \<and> b = stack)"
    for msg stack
    using nn c tr rid(1) sendToCC_open[OF o] nz
    by (auto simp: handleCommand_def Let_def split: option.splits exec_result.splits thrown.splits)
  show ?thesis
  proof (intro conjI impI allI)
    fix name res
    assume o: "ws w = Some k \<and> readyState w k = OPEN"
      and h: "get_prop cmd ''type'' = Some (JStr name) \<and> name \<in> set known_commands \<and> exec name (get_prop cmd ''payload'') = Returned res"
    from opn o h show "sent (handleCommand exec w cmd) =
        sent w @ [(k, JObj [(''type'', JStr ''response''), (''requestId'', rid), (''payload'', res)])]"
      by (simp add: response_to_def opt_field_def)
  next
    fix name msg stack
    assume o: "ws w = Some k \<and> readyState w k = OPEN"
      and h: "get_prop cmd ''type'' = Some (JStr name) \<and> name \<in> set known_commands \<and> exec name (get_prop cmd ''payload'') = Raised (ThrownValue msg stack)"
    from opn[of msg stack] o h show "sent (handleCommand exec w cmd) =
        sent w @ [(k, JObj [(''type'', JStr ''response''), (''requestId'', rid),
                                     (''payload'', JObj ([(''success'', JBool False)]
                                                         @ opt_field ''error'' msg
                                                         @ opt_field ''stack'' stack))])]"
      by (simp add: response_to_def error_result_def opt_field_def[of "''requestId''"])
  next
    fix name m st
    assume o: "ws w = Some k \<and> readyState w k = OPEN"
      and h: "get_prop cmd ''type'' = Some (JStr name) \<and> name \<in> set known_commands \<and> exec name (get_prop cmd ''payload'') = Raised (ThrownValue (Some (JStr m)) (Some (JStr st)))"
    from opn[of "Some (JStr m)" "Some (JStr st)"] o h show "sent (handleCommand exec w cmd) =
        sent w @ [(k, JObj [(''type'', JStr ''response''), (''requestId'', rid),
                                     (''payload'', JObj [(''success'', JBool False), (''error'', JStr m),
                                                         (''stack'', JStr st)])])]"
      by (simp add: response_to_def error_result_def opt_field_def)
  next
    assume o: "ws w = Some k \<and> readyState w k = OPEN"
      and h: "\<not> is_known (get_prop cmd ''type'')"
    from opn o h show "sent (handleCommand exec w cmd) =
        sent w @ [(k, JObj [(''type'', JStr ''response''), (''requestId'', rid),
                                     (''payload'', JObj ([(''success'', JBool False),
                                                          (''error'', JStr ''Unknown command type'')]
                                                         @ opt_field ''commandType'' (get_prop cmd ''type'')))])]"
      by (simp add: response_to_def opt_field_def unknown_result_def is_known_def split: option.splits)
  next
    assume "\<forall>k. ws w = Some k \<longrightarrow> readyState w k \<noteq> OPEN"
    then show "handleCommand exec w cmd = w" by (rule closed)
  qed
qed

lemma example_worker_open_simps:
  "ws example_worker_open = Some 0" "readyState example_worker_open 0 = OPEN"
  "sent example_worker_open = [(0, JObj [(''type'', JStr ''register''), (''addonId'', JStr ''addon''), (''timestamp'', JStr ''t0'')])]"
  by (simp_all add: example_worker_open_def socket_opens_def onopen_def connectToCC_def worker_init_def
      sendToCC_def clear_heartbeat_def Let_def)

theorem worker_replies_once_when_connected_witness:
  "\<not> is_control (get_prop example_command ''type'')
   \<and> get_prop example_command ''requestId'' = Some (JStr ''r1'')
   \<and> truthy (JStr ''r1'')
   \<and> ws example_worker_open = Some 0 \<and> readyState example_worker_open 0 = OPEN
   \<and> sent (handleCommand example_exec example_worker_open example_command) =
        sent example_worker_open @
          [(0, JObj [(''type'', JStr ''response''), (''requestId'', JStr ''r1''),
                     (''payload'', JObj [(''success'', JBool True), (''accounts'', JArr []), (''count'', JNum 0)])])]
   \<and> handleCommand example_exec example_worker_closed example_command = example_worker_closed
   \<and> sent (handleCommand example_exec_rejects example_worker_open example_command) =
        sent example_worker_open @
          [(0, JObj [(''type'', JStr ''response''), (''requestId'', JStr ''r1''),
                     (''payload'', JObj [(''success'', JBool False)])])]"
proof -
  have a: "\<not> is_control (get_prop example_command ''type'')"
    and b: "get_prop example_command ''requestId'' = Some (JStr ''r1'')"
    and c: "truthy (JStr ''r1'')"
    and t: "get_prop example_command ''type'' = Some (JStr ''list_accounts'')"
    and k: "''list_accounts'' \<in> set known_commands"
    and e: "example_exec ''list_accounts'' (get_prop example_command ''payload'') =
              Returned (JObj [(''success'', JBool True), (''accounts'', JArr []), (''count'', JNum 0)])"
    by (simp_all add: example_command_def is_control_def known_commands_def example_exec_def)
  have cl: "\<forall>k. ws example_worker_closed = Some k \<longrightarrow> readyState example_worker_closed k \<noteq> OPEN"
    by (simp add: example_worker_closed_def socket_closes_def onclose_def Let_def schedule_reconnect_def
        clear_heartbeat_def split: option.splits)
  note T = worker_replies_once_when_connected[OF a b c, of _ _ example_exec]
  from T[of example_worker_open 0] example_worker_open_simps(1,2) t k e
  have "sent (handleCommand example_exec example_worker_open example_command) =
        sent example_worker_open @
          [(0, JObj [(''type'', JStr ''response''), (''requestId'', JStr ''r1''),
                     (''payload'', JObj [(''success'', JBool True), (''accounts'', JArr []), (''count'', JNum 0)])])]"
    by blast
  moreover from T[of example_worker_closed 0] cl
  have "handleCommand example_exec example_worker_closed example_command = example_worker_closed"
    by blast
  moreover
  have e': "example_exec_rejects ''list_accounts'' (get_prop example_command ''payload'') =
              Raised (ThrownValue None None)"
    by (simp add: example_exec_rejects_def)
  from worker_replies_once_when_connected[OF a b c, of example_worker_open 0 example_exec_rejects]
    example_worker_open_simps(1,2) t k e'
  have "sent (handleCommand example_exec_rejects example_worker_open example_command) =
        sent example_worker_open @
          [(0, JObj [(''type'', JStr ''response''), (''requestId'', JStr ''r1''),
                     (''payload'', JObj ([(''success'', JBool False)] @ opt_field ''error'' None
                                          @ opt_field ''stack'' None))])]"
    by blast
  then have "sent (handleCommand example_exec_rejects example_worker_open example_command) =
        sent example_worker_open @
          [(0, JObj [(''type'', JStr ''response''), (''requestId'', JStr ''r1''),
                     (''payload'', JObj [(''success'', JBool False)])])]"
    by (simp add: opt_field_def)
  ultimately show ?thesis
    using a b c example_worker_open_simps(1,2) by simp
qed

text \<open>
  The remaining case of the \<open>catch\<close>: a handler that throws \<open>null\<close> or
  \<open>undefined\<close> gets no reply at all, whatever the state of the socket.
\<close>

lemma thrown_nullish_sends_nothing:
  assumes "get_prop cmd ''type'' = Some (JStr name)" and "name \<in> set known_commands"
    and "exec name (get_prop cmd ''payload'') = Raised ThrownNullish"
  shows "handleCommand exec w cmd = w"
  using assms by (simp add: handleCommand_def Let_def)

section \<open>Reconnection of the worker\<close>

lemma sendToCC_keeps:
  "scheduled (fst (sendToCC w m)) = scheduled w"
  "reconnectTimeout (fst (sendToCC w m)) = reconnectTimeout w"
  "nextSocket (fst (sendToCC w m)) = nextSocket w"
  by (simp_all add: sendToCC_def split: option.splits)

lemma handleCommand_keeps:
  "scheduled (handleCommand exec w cmd) = scheduled w"
  "reconnectTimeout (handleCommand exec w cmd) = reconnectTimeout w"
  "nextSocket (handleCommand exec w cmd) = nextSocket w"
  by (simp_all add: handleCommand_def Let_def sendToCC_keeps split: option.splits exec_result.splits thrown.splits)

lemma heartbeat_tick_keeps:
  "scheduled (heartbeat_tick w h) = scheduled w"
  "reconnectTimeout (heartbeat_tick w h) = reconnectTimeout w"
  "nextSocket (heartbeat_tick w h) = nextSocket w"
  by (simp_all add: heartbeat_tick_def sendToCC_keeps split: option.splits)

lemma clear_heartbeat_keeps:
  "scheduled (clear_heartbeat w) = scheduled w"
  "reconnectTimeout (clear_heartbeat w) = reconnectTimeout w"
  "nextSocket (clear_heartbeat w) = nextSocket w"
  by (simp_all add: clear_heartbeat_def split: option.splits)

lemma gave_up_stays:
  assumes "gave_up w"
  shows "gave_up (socket_closes w k) \<and> nextSocket (socket_closes w k) = nextSocket w"
    and "gave_up (reconnect_fires w t b) \<and> nextSocket (reconnect_fires w t b) = nextSocket w"
    and "gave_up (heartbeat_tick w h) \<and> nextSocket (heartbeat_tick w h) = nextSocket w"
    and "gave_up (handleCommand exec w cmd) \<and> nextSocket (handleCommand exec w cmd) = nextSocket w"
  using assms
  by (auto simp: gave_up_def socket_closes_def onclose_def reconnect_fires_def Let_def
      clear_heartbeat_keeps heartbeat_tick_keeps handleCommand_keeps split: option.splits)

lemma one_timer_schedule: "scheduled w = Map.empty \<Longrightarrow> one_timer (schedule_reconnect w)"
  by (simp add: one_timer_def schedule_reconnect_def Let_def)

lemma one_timer_connect: "scheduled w = Map.empty \<Longrightarrow> one_timer (connectToCC w b)"
  by (simp add: connectToCC_def one_timer_schedule Let_def) (simp add: one_timer_def)

lemma one_timer_unique:
  assumes "one_timer w" and "scheduled w t \<noteq> None" and "scheduled w t' \<noteq> None"
  shows "t = t'"
proof -
  from assms(1,2) have "reconnectTimeout w = Some t" by (simp add: one_timer_def)
  moreover from assms(1,3) have "reconnectTimeout w = Some t'" by (simp add: one_timer_def)
  ultimately show ?thesis by simp
qed

lemma one_timer_removed:
  assumes "one_timer w" and "scheduled w t \<noteq> None"
  shows "(scheduled w)(t := None) = Map.empty"
proof (rule ext)
  fix x
  show "((scheduled w)(t := None)) x = None"
  proof (cases "x = t")
    case True
    then show ?thesis by simp
  next
    case False
    have "scheduled w x = None"
    proof (rule ccontr)
      assume "scheduled w x \<noteq> None"
      from one_timer_unique[OF assms this] False show False by simp
    qed
    with False show ?thesis by simp
  qed
qed

lemma one_timer_none:
  assumes "one_timer w" and "reconnectTimeout w = None"
  shows "scheduled w = Map.empty"
proof (rule ext)
  fix x
  from assms have "scheduled w x \<noteq> None \<Longrightarrow> False" by (simp add: one_timer_def)
  then show "scheduled w x = None" by blast
qed

lemma one_timer_opens: "one_timer w \<Longrightarrow> one_timer (socket_opens w k addon now)"
  by (auto simp: one_timer_def socket_opens_def onopen_def Let_def sendToCC_keeps clear_heartbeat_keeps
      split: option.splits)

lemma one_timer_closes: "one_timer w \<Longrightarrow> one_timer (socket_closes w k)"
proof -
  assume a: "one_timer w"
  let ?w1 = "w\<lparr>readyState := (readyState w)(k := CLOSED)\<rparr>"
  show ?thesis
  proof (cases "reconnectTimeout w")
    case None
    with a have "scheduled w = Map.empty" by (intro one_timer_none)
    with None show ?thesis
      by (auto simp: socket_closes_def onclose_def Let_def clear_heartbeat_def intro!: one_timer_schedule
          split: option.splits)
  next
    case (Some t)
    with a show ?thesis
      by (auto simp: socket_closes_def onclose_def Let_def clear_heartbeat_def one_timer_def
          split: option.splits)
  qed
qed

lemma one_timer_fires: "one_timer w \<Longrightarrow> one_timer (reconnect_fires w t b)"
proof (cases "scheduled w t")
  case None then show "one_timer w \<Longrightarrow> ?thesis" by (simp add: reconnect_fires_def)
next
  case (Some d)
  assume "one_timer w"
  with Some have "(scheduled w)(t := None) = Map.empty" by (intro one_timer_removed) simp_all
  then show ?thesis
    by (simp add: reconnect_fires_def Some one_timer_connect)
qed

lemma one_timer_reachable: "worker_reachable w \<Longrightarrow> one_timer w"
proof (induction rule: worker_reachable.induct)
  case (wr_start ctor_throws)
  show ?case by (rule one_timer_connect) (simp add: worker_init_def)
next
  case (wr_tick w h)
  then show ?case by (simp add: one_timer_def heartbeat_tick_keeps)
next
  case (wr_command w exec cmd)
  then show ?case by (simp add: one_timer_def handleCommand_keeps)
qed (simp_all add: one_timer_opens one_timer_closes one_timer_fires)

lemma at_most_one_reconnect_timer:
  "worker_reachable w \<Longrightarrow> scheduled w t \<noteq> None \<Longrightarrow> scheduled w t' \<noteq> None \<Longrightarrow> t = t'"
  by (rule one_timer_unique[OF one_timer_reachable])

text \<open>
  Claim C6, evaluated on the code. The start-up connection fails (socket 0 closes): a
  reconnect timer with delay 5000 is scheduled, handle 1. The timer fires and the second
  attempt is made (socket 1). That attempt fails too: \<open>reconnectTimeout\<close> still holds
  the handle of the timer that has fired, so \<open>onclose\<close> schedules nothing. The worker
  is disconnected with no timer scheduled, after two attempts in all.
\<close>

theorem reconnect_stops_after_failed_retry:
  "scheduled (socket_closes (connectToCC worker_init False) 0) = [1 \<mapsto> 5000]
   \<and> nextSocket (reconnect_fires (socket_closes (connectToCC worker_init False) 0) 1 False) = 2
   \<and> ws example_retry_failed = None
   \<and> reconnectTimeout example_retry_failed = Some 1
   \<and> scheduled example_retry_failed = Map.empty
   \<and> nextSocket example_retry_failed = 2"
  by (simp add: example_retry_failed_def socket_closes_def onclose_def connectToCC_def worker_init_def
      schedule_reconnect_def reconnect_fires_def RECONNECT_INTERVAL_def Let_def)

text \<open>
  From there on, no close event, timer, heartbeat tick or command makes the worker create
  another socket (\<open>gave_up_stays\<close>), although the state is reachable.
\<close>

lemma example_retry_failed_gave_up: "gave_up example_retry_failed \<and> worker_reachable example_retry_failed"
proof
  show "gave_up example_retry_failed"
    by (simp add: gave_up_def example_retry_failed_def socket_closes_def onclose_def connectToCC_def worker_init_def
      schedule_reconnect_def reconnect_fires_def RECONNECT_INTERVAL_def Let_def)
  show "worker_reachable example_retry_failed"
    unfolding example_retry_failed_def by (intro wr_closes wr_fires wr_start)
qed

section \<open>HTML bodies of \<open>read_email\<close>\<close>

lemma map_of_set_prop: "map_of (set_prop k v fs) = (map_of fs)(k \<mapsto> v)"
  by (induction fs) (auto simp: fun_eq_iff)

lemma map_of_delete_prop: "map_of (delete_prop k fs) = (map_of fs)(k := None)"
  by (induction fs) (auto simp: delete_prop_def fun_eq_iff)

lemma map_of_in_keys: "map_of fs k = Some v \<Longrightarrow> k \<in> fst ` set fs"
  using map_of_eq_None_iff[of fs k] by auto

text \<open>
  Claim C9. Let the resolved \<open>read_email\<close> result be an object with a \<open>success\<close>
  property whose \<open>message\<close> has a truthy \<open>isHtml\<close> and a string \<open>body\<close>. If the
  converter returns, the result handed back has the converted text as \<open>body\<close> and no
  \<open>isHtml\<close>, every other property being as before. If the converter throws, the result
  is handed back unchanged, HTML body included. In both cases the tool returns its
  content normally.
\<close>

theorem html_body_converted:
  assumes "get_prop res ''success'' = Some sv"
    and "get_prop res ''message'' = Some msg"
    and "get_prop msg ''isHtml'' = Some flag" and "truthy flag"
    and "get_prop msg ''body'' = Some (JStr html)"
  shows "(\<forall>md. turndown html = Inr md \<longrightarrow>
           (\<exists>res' msg'. convert_read_email turndown (Some res) = Some res'
              \<and> get_prop res' ''message'' = Some msg'
              \<and> get_prop msg' ''body'' = Some (JStr md)
              \<and> get_prop msg' ''isHtml'' = None
              \<and> (\<forall>k. k \<noteq> ''body'' \<and> k \<noteq> ''isHtml'' \<longrightarrow> get_prop msg' k = get_prop msg k)
              \<and> (\<forall>k. k \<noteq> ''message'' \<longrightarrow> get_prop res' k = get_prop res k)))
       \<and> (\<forall>err. turndown html = Inl err \<longrightarrow> convert_read_email turndown (Some res) = Some res)
       \<and> read_email_tool turndown (Resolved (Some res)) = Some (Content (convert_read_email turndown (Some res)))"
proof -
  from assms(1) obtain fs where res: "res = JObj fs" by (cases res) simp_all
  from assms(3) obtain ms where msg: "msg = JObj ms" by (cases msg) simp_all
  from assms res msg have f: "map_of fs ''success'' = Some sv" "map_of fs ''message'' = Some (JObj ms)"
    "map_of ms ''isHtml'' = Some flag" "map_of ms ''body'' = Some (JStr html)" by simp_all
  have conv: "convert_read_email turndown (Some res) =
      (case turndown html of Inl err \<Rightarrow> Some res
       | Inr md \<Rightarrow> Some (JObj (set_prop ''message''
                                   (JObj (delete_prop ''isHtml'' (set_prop ''body'' (JStr md) ms))) fs)))"
    using f assms(4) map_of_in_keys[OF f(1)] map_of_in_keys[OF f(2)] map_of_in_keys[OF f(3)]
    by (simp add: convert_read_email_def res split: sum.splits)
  show ?thesis
  proof (intro conjI allI impI)
    fix md assume "turndown html = Inr md"
    then have "convert_read_email turndown (Some res) =
        Some (JObj (set_prop ''message'' (JObj (delete_prop ''isHtml'' (set_prop ''body'' (JStr md) ms))) fs))"
      by (simp add: conv)
    then show "\<exists>res' msg'. convert_read_email turndown (Some res) = Some res'
              \<and> get_prop res' ''message'' = Some msg'
              \<and> get_prop msg' ''body'' = Some (JStr md)
              \<and> get_prop msg' ''isHtml'' = None
              \<and> (\<forall>k. k \<noteq> ''body'' \<and> k \<noteq> ''isHtml'' \<longrightarrow> get_prop msg' k = get_prop msg k)
              \<and> (\<forall>k. k \<noteq> ''message'' \<longrightarrow> get_prop res' k = get_prop res k)"
      by (simp add: map_of_set_prop map_of_delete_prop res msg)
  next
    fix err assume "turndown html = Inl err"
    then show "convert_read_email turndown (Some res) = Some res" by (simp add: conv)
  next
    show "read_email_tool turndown (Resolved (Some res)) = Some (Content (convert_read_email turndown (Some res)))"
      by (simp add: read_email_tool_def)
  qed
qed

theorem html_body_converted_witness:
  "get_prop example_email ''success'' = Some (JBool True)
   \<and> get_prop example_email ''message'' = Some (JObj [(''id'', JNum 7), (''body'', JStr ''<b>hi</b>''), (''isHtml'', JBool True)])
   \<and> truthy (JBool True)
   \<and> example_turndown ''<b>hi</b>'' = Inr ''**hi**''
   \<and> convert_read_email example_turndown (Some example_email) =
        Some (JObj [(''success'', JBool True), (''message'', JObj [(''id'', JNum 7), (''body'', JStr ''**hi**'')])])"
proof -
  let ?msg = "JObj [(''id'', JNum 7), (''body'', JStr ''<b>hi</b>''), (''isHtml'', JBool True)]"
  have a: "get_prop example_email ''success'' = Some (JBool True)"
    and b: "get_prop example_email ''message'' = Some ?msg"
    and c: "get_prop ?msg ''isHtml'' = Some (JBool True)"
    and d: "truthy (JBool True)"
    and e: "get_prop ?msg ''body'' = Some (JStr ''<b>hi</b>'')"
    and t: "example_turndown ''<b>hi</b>'' = Inr ''**hi**''"
    by (simp_all add: example_email_def example_turndown_def)
  from html_body_converted[OF a b c d e, of example_turndown] t
  obtain res' where "convert_read_email example_turndown (Some example_email) = Some res'" by blast
  moreover have "convert_read_email example_turndown (Some example_email) =
        Some (JObj [(''success'', JBool True), (''message'', JObj [(''id'', JNum 7), (''body'', JStr ''**hi**'')])])"
    by (simp add: convert_read_email_def example_email_def example_turndown_def delete_prop_def)
  ultimately show ?thesis using a b d t by simp
qed

end
